theory Spec2Isabelle
  imports Main
begin

section \<open>Calendar arithmetic underneath the date-time library\<close>

text \<open>
  The helper functions of the migration guide (\<open>toUTCTimestamp\<close>, \<open>fromUTCTimestamp\<close>,
  the dual write of \<open>Task.create\<close> and \<open>Task.update\<close>, \<open>shouldNotifyNow\<close>) are thin
  wrappers around the Luxon \<open>DateTime\<close> class, which in turn rests on the time-value
  arithmetic of the JavaScript \<open>Date\<close> object. Timestamps are epoch milliseconds
  (\<open>int\<close>), zone offsets are minutes east of UTC.
\<close>

record dateobj =
  year :: int
  month :: int
  day :: int
  hour :: int
  minute :: int
  second :: int
  millisecond :: int

definition msPerDay :: int where
  "msPerDay = 86400000"

definition isLeapYear :: "int \<Rightarrow> bool" where
  "isLeapYear y = (y mod 4 = 0 \<and> (y mod 100 \<noteq> 0 \<or> y mod 400 = 0))"

definition daysInMonth :: "int \<Rightarrow> int \<Rightarrow> int" where
  "daysInMonth y m =
     (let modMonth = (m - 1) mod 12 + 1;
          modYear = y + (m - modMonth) div 12
      in if modMonth = 2 then (if isLeapYear modYear then 29 else 28)
         else [31, 0, 31, 30, 31, 30, 31, 31, 30, 31, 30, 31] ! nat (modMonth - 1))"

text \<open>ECMAScript \<open>DayFromYear\<close>: the day number of 1 January of year \<open>y\<close>.\<close>

definition dayFromYear :: "int \<Rightarrow> int" where
  "dayFromYear y =
     365 * (y - 1970) + (y - 1969) div 4 - (y - 1901) div 100 + (y - 1601) div 400"

text \<open>Days of the year that precede the first of month \<open>m\<close> (1 to 12; 13 is the year's end).\<close>

definition daysBeforeMonth :: "int \<Rightarrow> int \<Rightarrow> int" where
  "daysBeforeMonth y m =
     [0, 31, 59, 90, 120, 151, 181, 212, 243, 273, 304, 334, 365] ! nat (m - 1)
       + (if 2 < m \<and> isLeapYear y then 1 else 0)"

text \<open>
  \<open>objToLocalTS\<close> calls \<open>Date.UTC\<close> on the fields and undoes the two-digit-year
  legacy rule of \<open>Date.UTC\<close> with \<open>setUTCFullYear\<close>, so every year is read in the
  proleptic Gregorian calendar. Fields are in range when it is called (validation
  comes first), except that hour 24 is let through and rolls into the next day.
\<close>

definition objToLocalTS :: "dateobj \<Rightarrow> int" where
  "objToLocalTS obj =
     (dayFromYear (year obj) + daysBeforeMonth (year obj) (month obj) + (day obj - 1)) * msPerDay
       + hour obj * 3600000 + minute obj * 60000 + second obj * 1000 + millisecond obj"

text \<open>
  ECMAScript \<open>YearFromTime\<close>: the largest year whose first day is not after day
  number \<open>n\<close>. It is computed from the mean year length of the 400-year cycle
  (146097 days) and one step of correction.
\<close>

definition yearFromDay :: "int \<Rightarrow> int" where
  "yearFromDay n =
     (let y = 1970 + (n * 400) div 146097
      in if n < dayFromYear y then y - 1
         else if dayFromYear (y + 1) \<le> n then y + 1
         else y)"

text \<open>ECMAScript \<open>MonthFromTime\<close> (here 1 to 12) from the day within the year.\<close>

definition monthFromDayInYear :: "int \<Rightarrow> int \<Rightarrow> int" where
  "monthFromDayInYear y d =
     (if d < daysBeforeMonth y 2 then 1
      else if d < daysBeforeMonth y 3 then 2
      else if d < daysBeforeMonth y 4 then 3
      else if d < daysBeforeMonth y 5 then 4
      else if d < daysBeforeMonth y 6 then 5
      else if d < daysBeforeMonth y 7 then 6
      else if d < daysBeforeMonth y 8 then 7
      else if d < daysBeforeMonth y 9 then 8
      else if d < daysBeforeMonth y 10 then 9
      else if d < daysBeforeMonth y 11 then 10
      else if d < daysBeforeMonth y 12 then 11
      else 12)"

text \<open>
  \<open>tsToObj\<close>: the calendar fields of the timestamp shifted by the offset, read with
  the UTC getters of \<open>Date\<close>.
\<close>

definition tsToObj :: "int \<Rightarrow> int \<Rightarrow> dateobj" where
  "tsToObj ts offset =
     (let t = ts + offset * 60 * 1000;
          dn = t div msPerDay;
          tm = t mod msPerDay;
          y = yearFromDay dn;
          diy = dn - dayFromYear y;
          m = monthFromDayInYear y diy
      in \<lparr> year = y, month = m, day = diy - daysBeforeMonth y m + 1,
           hour = tm div 3600000, minute = tm mod 3600000 div 60000,
           second = tm mod 60000 div 1000, millisecond = tm mod 1000 \<rparr>)"


section \<open>Decimal fields of date strings\<close>

definition isDigit :: "char \<Rightarrow> bool" where
  "isDigit c = (48 \<le> (of_char c :: nat) \<and> (of_char c :: nat) \<le> 57)"

definition digitVal :: "char \<Rightarrow> int" where
  "digitVal c = int (of_char c) - 48"

definition digitChar :: "nat \<Rightarrow> char" where
  "digitChar d = char_of (48 + d)"

fun allDigits :: "string \<Rightarrow> bool" where
  "allDigits [] = True"
| "allDigits (c # cs) = (isDigit c \<and> allDigits cs)"

definition parseDigits :: "string \<Rightarrow> int" where
  "parseDigits s = foldl (\<lambda>a c. 10 * a + digitVal c) 0 s"

text \<open>The decimal string of a natural number, as \<open>"" + n\<close> gives it.\<close>

function showNat :: "nat \<Rightarrow> string" where
  "showNat n = (if n < 10 then [digitChar n] else showNat (n div 10) @ [digitChar (n mod 10)])"
  by pat_completeness auto
termination
  by (relation "measure id") auto

declare showNat.simps [simp del]

text \<open>
  The library's \<open>padStart(input, n)\<close>: zero padding to \<open>n\<close> digits, the sign of a
  negative number in front of the padding.
\<close>

definition padZeros :: "nat \<Rightarrow> string \<Rightarrow> string" where
  "padZeros n s = replicate (n - length s) (CHR ''0'') @ s"

definition padStart :: "int \<Rightarrow> nat \<Rightarrow> string" where
  "padStart input n =
     (if input < 0 then CHR ''-'' # padZeros n (showNat (nat (- input)))
      else padZeros n (showNat (nat input)))"

section \<open>The date-time library: zones and the DateTime operations the helpers call\<close>

text \<open>
  The definitions of this section follow the library (Luxon): \<open>fromObject\<close>,
  \<open>objToTS\<close>, \<open>fixOffset\<close>, \<open>setZone\<close>, \<open>toISO\<close>, \<open>toFormat\<close>,
  \<open>startOf\<close>, \<open>endOf\<close> and \<open>hasSame\<close> of \<open>DateTime\<close>, and its helpers
  \<open>objToLocalTS\<close>, \<open>tsToObj\<close>, \<open>daysInMonth\<close>, \<open>isLeapYear\<close> and
  \<open>padStart\<close>.

  A zone is its offset function (minutes east of UTC at an instant). The time zone
  database is a parameter: it maps what the caller passes as \<open>zone\<close> (a name, or
  nothing, which selects the default zone) to a zone, or to \<open>None\<close> when the
  identifier is not recognised. Offsets are whole minutes.

  A \<open>DateTime\<close> is \<open>None\<close> when invalid, otherwise its timestamp \<open>ts\<close> and the
  offset \<open>o\<close> in force.
\<close>

type_synonym zone = "int \<Rightarrow> int"
type_synonym tzdb = "string option \<Rightarrow> zone option"
type_synonym datetime = "(int \<times> int) option"

definition hasInvalidGregorianData :: "dateobj \<Rightarrow> bool" where
  "hasInvalidGregorianData obj =
     (\<not> (1 \<le> month obj \<and> month obj \<le> 12)
      \<or> \<not> (1 \<le> day obj \<and> day obj \<le> daysInMonth (year obj) (month obj)))"

definition hasInvalidTimeData :: "dateobj \<Rightarrow> bool" where
  "hasInvalidTimeData obj =
     (let validHour = ((0 \<le> hour obj \<and> hour obj \<le> 23)
            \<or> (hour obj = 24 \<and> minute obj = 0 \<and> second obj = 0 \<and> millisecond obj = 0));
          validMinute = (0 \<le> minute obj \<and> minute obj \<le> 59);
          validSecond = (0 \<le> second obj \<and> second obj \<le> 59);
          validMillisecond = (0 \<le> millisecond obj \<and> millisecond obj \<le> 999)
      in \<not> validHour \<or> \<not> validMinute \<or> \<not> validSecond \<or> \<not> validMillisecond)"

text \<open>
  \<open>fixOffset\<close>: from a local timestamp and a guessed offset to the UTC timestamp and
  the offset in force there. The guess is tested, corrected once, and if the corrected
  guess does not fit either the local time is taken to lie in a gap and is pushed
  across it.
\<close>

definition fixOffset :: "int \<Rightarrow> int \<Rightarrow> zone \<Rightarrow> int \<times> int" where
  "fixOffset localTS o1 tz =
     (let utcGuess = localTS - o1 * 60 * 1000;
          o2 = tz utcGuess
      in if o1 = o2 then (utcGuess, o1)
         else let utcGuess2 = utcGuess - (o2 - o1) * 60 * 1000;
                  o3 = tz utcGuess2
              in if o2 = o3 then (utcGuess2, o2)
                 else (localTS - min o2 o3 * 60 * 1000, max o2 o3))"

definition objToTS :: "dateobj \<Rightarrow> int \<Rightarrow> zone \<Rightarrow> int \<times> int" where
  "objToTS obj offset tz = fixOffset (objToLocalTS obj) offset tz"

text \<open>
  \<open>DateTime.fromObject\<close>: the zone is checked first, the provisional offset is the
  zone's offset at the current time \<open>tsNow\<close> (\<open>Settings.now()\<close>), then the fields
  are validated and resolved.
\<close>

definition fromObject :: "tzdb \<Rightarrow> int \<Rightarrow> dateobj \<Rightarrow> string option \<Rightarrow> datetime" where
  "fromObject db tsNow obj zone =
     (case db zone of
        None \<Rightarrow> None
      | Some zoneToUse \<Rightarrow>
          let offsetProvis = zoneToUse tsNow
          in if hasInvalidGregorianData obj \<or> hasInvalidTimeData obj then None
             else Some (objToTS obj offsetProvis zoneToUse))"

text \<open>
  \<open>DateTime.fromFormat(text, 'yyyy-MM-dd HH:mm', { zone })\<close>: the text has to match
  four digits, two, two, two and two with the literals of the format between them;
  seconds and milliseconds default to zero.
\<close>

definition parseFromTokens :: "string \<Rightarrow> dateobj option" where
  "parseFromTokens text =
     (if length text = 16
         \<and> allDigits (take 4 text) \<and> text ! 4 = CHR ''-''
         \<and> allDigits (take 2 (drop 5 text)) \<and> text ! 7 = CHR ''-''
         \<and> allDigits (take 2 (drop 8 text)) \<and> text ! 10 = CHR '' ''
         \<and> allDigits (take 2 (drop 11 text)) \<and> text ! 13 = CHR '':''
         \<and> allDigits (take 2 (drop 14 text))
      then Some \<lparr> year = parseDigits (take 4 text),
                  month = parseDigits (take 2 (drop 5 text)),
                  day = parseDigits (take 2 (drop 8 text)),
                  hour = parseDigits (take 2 (drop 11 text)),
                  minute = parseDigits (take 2 (drop 14 text)),
                  second = 0, millisecond = 0 \<rparr>
      else None)"

definition fromFormat :: "tzdb \<Rightarrow> int \<Rightarrow> string \<Rightarrow> string option \<Rightarrow> datetime" where
  "fromFormat db tsNow text zone =
     (case parseFromTokens text of
        None \<Rightarrow> None
      | Some vals \<Rightarrow> fromObject db tsNow vals zone)"

definition toUTC :: "int \<times> int \<Rightarrow> int \<times> int" where
  "toUTC dt = (fst dt, 0)"

text \<open>
  \<open>toISO\<close> of a DateTime in UTC: \<open>YYYY-MM-DDTHH:mm:ss.SSSZ\<close>, the year with a sign
  and six digits when it is negative or beyond 9999.
\<close>

definition toISODate :: "dateobj \<Rightarrow> string" where
  "toISODate c =
     (let longFormat = (year c > 9999 \<or> year c < 0)
      in (if longFormat \<and> year c \<ge> 0 then [CHR ''+''] else [])
           @ padStart (year c) (if longFormat then 6 else 4)
           @ [CHR ''-''] @ padStart (month c) 2 @ [CHR ''-''] @ padStart (day c) 2)"

definition toISOTime :: "dateobj \<Rightarrow> string" where
  "toISOTime c =
     padStart (hour c) 2 @ [CHR '':''] @ padStart (minute c) 2 @ [CHR '':'']
       @ padStart (second c) 2 @ [CHR ''.''] @ padStart (millisecond c) 3 @ [CHR ''Z'']"

definition toISO :: "int \<times> int \<Rightarrow> string" where
  "toISO dt = (let c = tsToObj (fst dt) (snd dt) in toISODate c @ [CHR ''T''] @ toISOTime c)"

text \<open>
  \<open>DateTime.fromISO(text, { zone: 'utc' })\<close>, on the profile of ISO 8601 that
  \<open>toISO\<close> writes (calendar date, extended format, milliseconds, the UTC designator).
  The library reads further profiles (week and ordinal dates, numeric offsets, reduced
  precision); those strings are outside this model and are treated as not parseable.
\<close>

definition fromISO :: "string \<Rightarrow> datetime" where
  "fromISO text =
     (let long = (text \<noteq> [] \<and> (hd text = CHR ''+'' \<or> hd text = CHR ''-''));
          neg = (text \<noteq> [] \<and> hd text = CHR ''-'');
          s = (if long then tl text else text);
          n = (if long then 6 else 4)
      in if length s = n + 20
            \<and> allDigits (take n s) \<and> s ! n = CHR ''-''
            \<and> allDigits (take 2 (drop (n + 1) s)) \<and> s ! (n + 3) = CHR ''-''
            \<and> allDigits (take 2 (drop (n + 4) s)) \<and> s ! (n + 6) = CHR ''T''
            \<and> allDigits (take 2 (drop (n + 7) s)) \<and> s ! (n + 9) = CHR '':''
            \<and> allDigits (take 2 (drop (n + 10) s)) \<and> s ! (n + 12) = CHR '':''
            \<and> allDigits (take 2 (drop (n + 13) s)) \<and> s ! (n + 15) = CHR ''.''
            \<and> allDigits (take 3 (drop (n + 16) s)) \<and> s ! (n + 19) = CHR ''Z''
         then let obj = \<lparr> year = (if neg then - parseDigits (take n s) else parseDigits (take n s)),
                           month = parseDigits (take 2 (drop (n + 1) s)),
                           day = parseDigits (take 2 (drop (n + 4) s)),
                           hour = parseDigits (take 2 (drop (n + 7) s)),
                           minute = parseDigits (take 2 (drop (n + 10) s)),
                           second = parseDigits (take 2 (drop (n + 13) s)),
                           millisecond = parseDigits (take 3 (drop (n + 16) s)) \<rparr>
              in if hasInvalidGregorianData obj \<or> hasInvalidTimeData obj then None
                 else Some (objToLocalTS obj, 0)
         else None)"

text \<open>\<open>setZone\<close> keeps the instant; an invalid DateTime stays invalid.\<close>

definition setZone :: "tzdb \<Rightarrow> datetime \<Rightarrow> string option \<Rightarrow> datetime" where
  "setZone db dt zone =
     (case dt of
        None \<Rightarrow> None
      | Some d \<Rightarrow> (case db zone of
                     None \<Rightarrow> None
                   | Some z \<Rightarrow> Some (fst d, z (fst d))))"

text \<open>\<open>toFormat('yyyy-MM-dd')\<close> and \<open>toFormat('HH:mm')\<close>.\<close>

definition toFormat_yyyyMMdd :: "datetime \<Rightarrow> string" where
  "toFormat_yyyyMMdd dt =
     (case dt of
        None \<Rightarrow> ''Invalid DateTime''
      | Some d \<Rightarrow> let c = tsToObj (fst d) (snd d)
                  in padStart (year c) 4 @ [CHR ''-''] @ padStart (month c) 2
                       @ [CHR ''-''] @ padStart (day c) 2)"

definition toFormat_HHmm :: "datetime \<Rightarrow> string" where
  "toFormat_HHmm dt =
     (case dt of
        None \<Rightarrow> ''Invalid DateTime''
      | Some d \<Rightarrow> let c = tsToObj (fst d) (snd d)
                  in padStart (hour c) 2 @ [CHR '':''] @ padStart (minute c) 2)"

text \<open>
  \<open>now.hasSame(other, 'minute')\<close> for two DateTimes in UTC: \<open>other\<close> lies between
  \<open>now.startOf('minute')\<close> and \<open>now.endOf('minute')\<close>.
\<close>

definition startOfMinute :: "int \<Rightarrow> int" where
  "startOfMinute ts = objToLocalTS ((tsToObj ts 0)\<lparr> second := 0, millisecond := 0 \<rparr>)"

definition endOfMinute :: "int \<Rightarrow> int" where
  "endOfMinute ts = startOfMinute (ts + 60000) - 1"

definition hasSameMinute :: "int \<Rightarrow> int \<Rightarrow> bool" where
  "hasSameMinute ts inputMs = (startOfMinute ts \<le> inputMs \<and> inputMs \<le> endOfMinute ts)"

section \<open>The helper functions of the migration guide\<close>

text \<open>
  JavaScript objects (a task document, the validated changes of an update) are maps
  from field names to string values; a field that is missing reads as \<open>undefined\<close>,
  here \<open>None\<close>. The current time, which the library reads from the clock, is the
  explicit argument \<open>tsNow\<close>.
\<close>

type_synonym jsobj = "string \<rightharpoonup> string"

text \<open>Truthiness of a string-or-undefined value, and its text in a template literal.\<close>

definition truthy :: "string option \<Rightarrow> bool" where
  "truthy v = (case v of None \<Rightarrow> False | Some s \<Rightarrow> s \<noteq> [])"

definition templ :: "string option \<Rightarrow> string" where
  "templ v = (case v of None \<Rightarrow> ''undefined'' | Some s \<Rightarrow> s)"

text \<open>The operator \<open>??\<close>.\<close>

definition nullish :: "string option \<Rightarrow> string option \<Rightarrow> string option" where
  "nullish a b = (case a of None \<Rightarrow> b | Some s \<Rightarrow> Some s)"

definition toUTCTimestamp ::
    "tzdb \<Rightarrow> int \<Rightarrow> string option \<Rightarrow> string option \<Rightarrow> string option \<Rightarrow> string" where
  "toUTCTimestamp db tsNow dateISO time timezone =
     (if \<not> truthy dateISO \<or> \<not> truthy time then []
      else case fromFormat db tsNow (templ dateISO @ '' '' @ templ time) timezone of
             None \<Rightarrow> []
           | Some localDT \<Rightarrow> toISO (toUTC localDT))"

definition fromUTCTimestamp :: "tzdb \<Rightarrow> string option \<Rightarrow> string option \<Rightarrow> jsobj" where
  "fromUTCTimestamp db timestampUTC timezone =
     (if \<not> truthy timestampUTC then [''dateISO'' \<mapsto> [], ''time'' \<mapsto> []]
      else let localDT = setZone db (fromISO (templ timestampUTC)) timezone
           in [''dateISO'' \<mapsto> toFormat_yyyyMMdd localDT, ''time'' \<mapsto> toFormat_HHmm localDT])"

text \<open>
  The date-time part of \<open>Task.create\<close>: what it does to the validated task before
  the task is written.
\<close>

definition Task_create :: "tzdb \<Rightarrow> int \<Rightarrow> jsobj \<Rightarrow> jsobj" where
  "Task_create db tsNow validatedTask =
     (let task1 =
            (if truthy (validatedTask ''startDateISO'') \<and> truthy (validatedTask ''startTime'')
                \<and> \<not> truthy (validatedTask ''startTimestampUTC'')
             then validatedTask(''startTimestampUTC'' \<mapsto>
                    toUTCTimestamp db tsNow (validatedTask ''startDateISO'')
                      (validatedTask ''startTime'') (validatedTask ''timeZone''))
             else validatedTask)
      in if truthy (task1 ''startTimestampUTC'') \<and> \<not> truthy (task1 ''startDateISO'')
         then let r = fromUTCTimestamp db (task1 ''startTimestampUTC'') (task1 ''timeZone'')
              in task1(''startDateISO'' := r ''dateISO'', ''startTime'' := r ''time'')
         else task1)"

text \<open>
  The date-time part of \<open>Task.update\<close>: from the cached current task and the validated
  changes to the changes that are written.
\<close>

definition Task_update_changes :: "tzdb \<Rightarrow> int \<Rightarrow> jsobj \<Rightarrow> jsobj \<Rightarrow> jsobj" where
  "Task_update_changes db tsNow currentTask validatedChanges =
     (let needsTimestampUpdate =
            (validatedChanges ''startDateISO'' \<noteq> None
             \<or> validatedChanges ''startTime'' \<noteq> None
             \<or> validatedChanges ''timeZone'' \<noteq> None);
          changes1 =
            (if needsTimestampUpdate
             then let dateISO = nullish (validatedChanges ''startDateISO'') (currentTask ''startDateISO'');
                      time = nullish (validatedChanges ''startTime'') (currentTask ''startTime'');
                      timezone = nullish (validatedChanges ''timeZone'') (currentTask ''timeZone'')
                  in if truthy dateISO \<and> truthy time
                     then validatedChanges(''startTimestampUTC'' \<mapsto>
                            toUTCTimestamp db tsNow dateISO time timezone)
                     else validatedChanges(''startTimestampUTC'' \<mapsto> [])
             else validatedChanges)
      in if truthy (changes1 ''startTimestampUTC'') \<and> \<not> needsTimestampUpdate
         then let r = fromUTCTimestamp db (changes1 ''startTimestampUTC'')
                        (nullish (changes1 ''timeZone'') (currentTask ''timeZone''))
              in changes1(''startDateISO'' := r ''dateISO'', ''startTime'' := r ''time'')
         else changes1)"

text \<open>
  \<open>batch.update(doc, validatedChanges)\<close> overwrites the fields named in the changes
  and keeps the others: the task as stored after \<open>Task.update\<close>.
\<close>

definition Task_update :: "tzdb \<Rightarrow> int \<Rightarrow> jsobj \<Rightarrow> jsobj \<Rightarrow> jsobj" where
  "Task_update db tsNow currentTask keyValueChanges =
     currentTask ++ Task_update_changes db tsNow currentTask keyValueChanges"

text \<open>
  \<open>parseInt(s, 10)\<close>: leading white space, an optional sign, then the longest run of
  decimal digits; \<open>None\<close> is \<open>NaN\<close>. Integers are exact here (JavaScript's are up
  to \<open>2^53\<close>).
\<close>

definition isWhiteSpace :: "char \<Rightarrow> bool" where
  "isWhiteSpace c = (c = CHR '' '' \<or> (9 \<le> (of_char c :: nat) \<and> (of_char c :: nat) \<le> 13))"

definition parseInt :: "string \<Rightarrow> int option" where
  "parseInt s =
     (let s1 = dropWhile isWhiteSpace s;
          neg = (s1 \<noteq> [] \<and> hd s1 = CHR ''-'');
          s2 = (if s1 \<noteq> [] \<and> (hd s1 = CHR ''-'' \<or> hd s1 = CHR ''+'') then tl s1 else s1);
          ds = takeWhile isDigit s2
      in if ds = [] then None
         else Some (if neg then - parseDigits ds else parseDigits ds))"

text \<open>The corrected \<open>shouldNotifyNow\<close> of \<open>functions/checkNotify.js\<close>.\<close>

definition shouldNotifyNow :: "tzdb \<Rightarrow> int \<Rightarrow> jsobj \<Rightarrow> bool" where
  "shouldNotifyNow db tsNow taskData =
     (let taskDateTime =
            (if truthy (taskData ''startTimestampUTC'')
             then fromISO (templ (taskData ''startTimestampUTC''))
             else fromFormat db tsNow
                    (templ (taskData ''startDateISO'') @ '' '' @ templ (taskData ''startTime''))
                    (taskData ''timeZone''))
      in case taskDateTime of
           None \<Rightarrow> False
         | Some dt \<Rightarrow>
             (case parseInt (templ (taskData ''notify'')) of
                None \<Rightarrow> False
              | Some notifyMinutes \<Rightarrow>
                  let now = tsNow;
                      notifyTime = fst (toUTC dt) - notifyMinutes * 60 * 1000
                  in if notifyMinutes = 0 then hasSameMinute now (fst (toUTC dt))
                     else hasSameMinute now notifyTime))"

section \<open>An excerpt of the IANA time zone database\<close>

text \<open>
  \<open>America/New_York\<close> with its 2025 rules: daylight time (UTC-4) from
  2025-03-09T07:00:00Z to 2025-11-02T06:00:00Z, standard time (UTC-5) otherwise. The
  transitions of other years are left out; in every year the zone is on one of these
  two offsets.
\<close>

definition America_New_York :: zone where
  "America_New_York ts = (if 1741503600000 \<le> ts \<and> ts < 1762063200000 then - 240 else - 300)"

text \<open>
  \<open>Pacific/Apia\<close>: UTC-11 until daylight time (UTC-10) began on 2010-09-26T11:00:00Z;
  it ended on 2011-04-02T14:00:00Z. Since the zone moved across the date line at the
  end of 2011 it is on UTC+13 (the daylight periods at UTC+14 before 2021 and the
  second period at UTC-10 in late 2011 are left out).
\<close>

definition Pacific_Apia :: zone where
  "Pacific_Apia ts =
     (if ts < 1285498800000 then - 660
      else if ts < 1301752800000 then - 600
      else if ts < 1325239200000 then - 660
      else 780)"

text \<open>
  The excerpt knows these two zones, \<open>Asia/Tokyo\<close> (UTC+9) and \<open>UTC\<close>; its default
  zone is UTC. Every other identifier is not recognised.
\<close>

definition tzdbExcerpt :: tzdb where
  "tzdbExcerpt zone =
     (case zone of
        None \<Rightarrow> Some (\<lambda>ts. 0)
      | Some name \<Rightarrow>
          if name = ''America/New_York'' then Some America_New_York
          else if name = ''Pacific/Apia'' then Some Pacific_Apia
          else if name = ''Asia/Tokyo'' then Some (\<lambda>ts. 540)
          else if name = ''UTC'' then Some (\<lambda>ts. 0)
          else None)"

section \<open>Basic facts\<close>

lemma truthy_Some [simp]: "truthy (Some s) = (s \<noteq> [])"
  by (simp add: truthy_def)

lemma truthy_None [simp]: "\<not> truthy None"
  by (simp add: truthy_def)

lemma templ_Some [simp]: "templ (Some s) = s"
  by (simp add: templ_def)

lemma isDigit_space [simp]: "\<not> isDigit (CHR '' '')"
  by (simp add: isDigit_def)

lemma New_York_offsets: "America_New_York t = - 240 \<or> America_New_York t = - 300"
  by (simp add: America_New_York_def)

lemma New_York_excerpt: "tzdbExcerpt (Some ''America/New_York'') = Some America_New_York"
  by (simp add: tzdbExcerpt_def)

text \<open>
  When the text parses, the zone is known and the fields are valid, \<open>toUTCTimestamp\<close>
  is the ISO string of what \<open>fixOffset\<close> finds, starting from the zone's offset at the
  time of the call.
\<close>

lemma toUTCTimestamp_resolved:
  assumes "parseFromTokens (d @ '' '' @ t) = Some obj"
    and "db z = Some tz"
    and "\<not> hasInvalidGregorianData obj" and "\<not> hasInvalidTimeData obj"
    and "d \<noteq> []" and "t \<noteq> []"
  shows "toUTCTimestamp db tsNow (Some d) (Some t) z
           = toISO (fst (fixOffset (objToLocalTS obj) (tz tsNow) tz), 0)"
  using assms
  by (simp add: toUTCTimestamp_def fromFormat_def fromObject_def objToTS_def toUTC_def)

subsection \<open>The minute of a timestamp\<close>

lemma hm_split:
  fixes tm :: int
  shows "tm div 3600000 * 3600000 + tm mod 3600000 div 60000 * 60000 = tm - tm mod 60000"
proof -
  have "tm mod 3600000 mod 60000 = tm mod 60000"
    by (simp add: mod_mod_cancel)
  moreover have "tm mod 3600000 = tm mod 3600000 div 60000 * 60000 + tm mod 3600000 mod 60000"
    by simp
  moreover have "tm = tm div 3600000 * 3600000 + tm mod 3600000"
    by simp
  ultimately show ?thesis
    by linarith
qed

lemma startOfMinute_eq: "startOfMinute ts = ts - ts mod 60000"
proof -
  have a: "ts mod msPerDay mod 60000 = ts mod 60000"
    by (simp add: msPerDay_def mod_mod_cancel)
  have b: "ts = (ts div msPerDay) * msPerDay + ts mod msPerDay"
    by simp
  have "startOfMinute ts = (ts div msPerDay) * msPerDay
          + (ts mod msPerDay div 3600000 * 3600000 + ts mod msPerDay mod 3600000 div 60000 * 60000)"
    by (simp add: startOfMinute_def tsToObj_def objToLocalTS_def Let_def)
  also have "\<dots> = (ts div msPerDay) * msPerDay + (ts mod msPerDay - ts mod msPerDay mod 60000)"
    by (simp only: hm_split)
  finally show ?thesis
    using a b by linarith
qed

lemma hasSameMinute_iff: "hasSameMinute a b \<longleftrightarrow> a - a mod 60000 = b - b mod 60000"
proof -
  have e: "endOfMinute a = a - a mod 60000 + 59999"
    by (simp add: endOfMinute_def startOfMinute_eq)
  have rb: "0 \<le> b mod 60000" "b mod 60000 < 60000"
    by simp_all
  show ?thesis
  proof
    assume "hasSameMinute a b"
    then have h: "a - a mod 60000 \<le> b" "b \<le> a - a mod 60000 + 59999"
      by (simp_all add: hasSameMinute_def e startOfMinute_eq)
    have "a - a mod 60000 = 60000 * (a div 60000)"
      by (simp add: minus_mod_eq_mult_div)
    with h have "b = 60000 * (a div 60000) + (b - 60000 * (a div 60000))"
      "0 \<le> b - 60000 * (a div 60000)" "b - 60000 * (a div 60000) < 60000"
      by simp_all
    then have "b div 60000 = a div 60000"
      by (metis int_div_pos_eq)
    then show "a - a mod 60000 = b - b mod 60000"
      by (simp add: minus_mod_eq_mult_div)
  next
    assume "a - a mod 60000 = b - b mod 60000"
    then show "hasSameMinute a b"
      using rb by (simp add: hasSameMinute_def e startOfMinute_eq)
  qed
qed

lemma shouldNotifyNow_utc:
  assumes "truthy (taskData ''startTimestampUTC'')"
    and "fromISO (templ (taskData ''startTimestampUTC'')) = Some (instantUTC, off)"
    and "parseInt (templ (taskData ''notify'')) = Some notifyLeadMinutes"
  shows "shouldNotifyNow db nowUTC taskData
     = (nowUTC - nowUTC mod 60000
          = (instantUTC - notifyLeadMinutes * 60000) - (instantUTC - notifyLeadMinutes * 60000) mod 60000)"
  using assms by (simp add: shouldNotifyNow_def toUTC_def hasSameMinute_iff mult.commute)

subsection \<open>Concrete wall-clock values\<close>

lemma parse_oct3: "parseFromTokens (''2025-10-03'' @ '' '' @ ''14:30'')
   = Some \<lparr> year = 2025, month = 10, day = 3, hour = 14, minute = 30, second = 0, millisecond = 0 \<rparr>"
  by code_simp

lemma valid_oct3:
  "\<not> hasInvalidGregorianData \<lparr> year = 2025, month = 10, day = 3, hour = 14, minute = 30, second = 0, millisecond = 0 \<rparr>"
  "\<not> hasInvalidTimeData \<lparr> year = 2025, month = 10, day = 3, hour = 14, minute = 30, second = 0, millisecond = 0 \<rparr>"
  by code_simp+

lemma iso_oct3:
  "toISO (fst (fixOffset (objToLocalTS \<lparr> year = 2025, month = 10, day = 3, hour = 14, minute = 30, second = 0, millisecond = 0 \<rparr>) (- 240) America_New_York), 0) = ''2025-10-03T18:30:00.000Z''"
  "toISO (fst (fixOffset (objToLocalTS \<lparr> year = 2025, month = 10, day = 3, hour = 14, minute = 30, second = 0, millisecond = 0 \<rparr>) (- 300) America_New_York), 0) = ''2025-10-03T18:30:00.000Z''"
  by code_simp+

lemma parse_nov2: "parseFromTokens (''2025-11-02'' @ '' '' @ ''01:30'')
   = Some \<lparr> year = 2025, month = 11, day = 2, hour = 1, minute = 30, second = 0, millisecond = 0 \<rparr>"
  by code_simp

lemma valid_nov2:
  "\<not> hasInvalidGregorianData \<lparr> year = 2025, month = 11, day = 2, hour = 1, minute = 30, second = 0, millisecond = 0 \<rparr>"
  "\<not> hasInvalidTimeData \<lparr> year = 2025, month = 11, day = 2, hour = 1, minute = 30, second = 0, millisecond = 0 \<rparr>"
  by code_simp+

lemma iso_nov2:
  "toISO (fst (fixOffset (objToLocalTS \<lparr> year = 2025, month = 11, day = 2, hour = 1, minute = 30, second = 0, millisecond = 0 \<rparr>) (- 240) America_New_York), 0) = ''2025-11-02T05:30:00.000Z''"
  "toISO (fst (fixOffset (objToLocalTS \<lparr> year = 2025, month = 11, day = 2, hour = 1, minute = 30, second = 0, millisecond = 0 \<rparr>) (- 300) America_New_York), 0) = ''2025-11-02T06:30:00.000Z''"
  by code_simp+

lemma parse_mar9: "parseFromTokens (''2025-03-09'' @ '' '' @ ''02:30'')
   = Some \<lparr> year = 2025, month = 3, day = 9, hour = 2, minute = 30, second = 0, millisecond = 0 \<rparr>"
  by code_simp

lemma valid_mar9:
  "\<not> hasInvalidGregorianData \<lparr> year = 2025, month = 3, day = 9, hour = 2, minute = 30, second = 0, millisecond = 0 \<rparr>"
  "\<not> hasInvalidTimeData \<lparr> year = 2025, month = 3, day = 9, hour = 2, minute = 30, second = 0, millisecond = 0 \<rparr>"
  by code_simp+

lemma iso_mar9:
  "toISO (fst (fixOffset (objToLocalTS \<lparr> year = 2025, month = 3, day = 9, hour = 2, minute = 30, second = 0, millisecond = 0 \<rparr>) (- 240) America_New_York), 0) = ''2025-03-09T07:30:00.000Z''"
  "toISO (fst (fixOffset (objToLocalTS \<lparr> year = 2025, month = 3, day = 9, hour = 2, minute = 30, second = 0, millisecond = 0 \<rparr>) (- 300) America_New_York), 0) = ''2025-03-09T07:30:00.000Z''"
  by code_simp+

lemma fromISO_oct3: "fromISO ''2025-10-03T18:30:00.000Z'' = Some (1759516200000, 0)"
  by code_simp

lemma parseInt_15: "parseInt ''15'' = Some 15"
  by code_simp

lemma parseInt_0: "parseInt ''0'' = Some 0"
  by code_simp

subsection \<open>Incomplete wall-clock pairs do not parse\<close>

lemma parse_incomplete:
  assumes "\<not> truthy d \<or> \<not> truthy t"
  shows "parseFromTokens (templ d @ '' '' @ templ t) = None"
proof -
  let ?text = "templ d @ '' '' @ templ t"
  consider (dn) "d = None" | (de) "d = Some []" | (tn) "t = None" | (te) "t = Some []"
    using assms by (auto simp add: truthy_def split: option.splits)
  then show ?thesis
  proof cases
    case dn
    then have "take 4 ?text = ''unde''"
      by (simp add: templ_def)
    then have "\<not> allDigits (take 4 ?text)"
      by (simp add: isDigit_def)
    then show ?thesis
      by (simp add: parseFromTokens_def)
  next
    case de
    then have "\<not> allDigits (take 4 ?text)"
      by simp
    then show ?thesis
      by (simp add: parseFromTokens_def)
  next
    case tn
    have "\<not> allDigits (take 2 (drop 14 ?text))" if "length ?text = 16"
    proof -
      from that tn have "length (templ d) = 6"
        by (simp add: templ_def)
      then have "take 2 (drop 14 ?text) = ''ed''"
        using tn by (simp add: templ_def)
      then show ?thesis
        by (simp add: isDigit_def)
    qed
    then show ?thesis
      by (auto simp add: parseFromTokens_def)
  next
    case te
    have "\<not> allDigits (take 2 (drop 14 ?text))" if "length ?text = 16"
    proof -
      from that te have l: "length (templ d) = 15"
        by simp
      then have "drop 14 (templ d) = [templ d ! 14]"
        using Cons_nth_drop_Suc [of 14 "templ d"] by simp
      with l have "drop 14 ?text = [templ d ! 14, CHR '' '']"
        using te by simp
      then show ?thesis
        by simp
    qed
    then show ?thesis
      by (auto simp add: parseFromTokens_def)
  qed
qed

section \<open>Notification firing\<close>

text \<open>
  Claim C1. For a task whose \<open>startTimestampUTC\<close> reads as the instant \<open>instantUTC\<close>
  and whose \<open>notify\<close> reads as \<open>notifyLeadMinutes\<close>, \<open>shouldNotifyNow\<close> is true exactly
  when the current time, truncated to the minute, equals \<open>instantUTC\<close> minus the lead,
  truncated to the minute. No zone takes part: the statement holds for every time zone
  database and whatever local fields and \<open>timeZone\<close> the task carries. For the instant
  2025-10-03T18:30:00Z and a lead of 15 minutes it is true at 2025-10-03T18:15:00Z
  (1759515300000) and false at 2025-10-03T14:15:00Z (1759500900000).
\<close>

theorem shouldNotifyNow_same_utc_minute:
  "(truthy (taskData ''startTimestampUTC'')
      \<and> fromISO (templ (taskData ''startTimestampUTC'')) = Some (instantUTC, 0)
      \<and> parseInt (templ (taskData ''notify'')) = Some notifyLeadMinutes
    \<longrightarrow> shouldNotifyNow db nowUTC taskData
         = (nowUTC - nowUTC mod 60000
              = (instantUTC - notifyLeadMinutes * 60000)
                  - (instantUTC - notifyLeadMinutes * 60000) mod 60000))
   \<and> shouldNotifyNow db 1759515300000
         [''startTimestampUTC'' \<mapsto> ''2025-10-03T18:30:00.000Z'', ''startDateISO'' \<mapsto> ''2025-10-03'',
          ''startTime'' \<mapsto> ''14:30'', ''timeZone'' \<mapsto> ''America/New_York'', ''notify'' \<mapsto> ''15'']
   \<and> \<not> shouldNotifyNow db 1759500900000
         [''startTimestampUTC'' \<mapsto> ''2025-10-03T18:30:00.000Z'', ''startDateISO'' \<mapsto> ''2025-10-03'',
          ''startTime'' \<mapsto> ''14:30'', ''timeZone'' \<mapsto> ''America/New_York'', ''notify'' \<mapsto> ''15'']"
proof (intro conjI impI)
  assume "truthy (taskData ''startTimestampUTC'')
      \<and> fromISO (templ (taskData ''startTimestampUTC'')) = Some (instantUTC, 0)
      \<and> parseInt (templ (taskData ''notify'')) = Some notifyLeadMinutes"
  then show "shouldNotifyNow db nowUTC taskData
         = (nowUTC - nowUTC mod 60000
              = (instantUTC - notifyLeadMinutes * 60000)
                  - (instantUTC - notifyLeadMinutes * 60000) mod 60000)"
    by (intro shouldNotifyNow_utc) simp_all
next
  let ?task = "[''startTimestampUTC'' \<mapsto> ''2025-10-03T18:30:00.000Z'', ''startDateISO'' \<mapsto> ''2025-10-03'',
          ''startTime'' \<mapsto> ''14:30'', ''timeZone'' \<mapsto> ''America/New_York'', ''notify'' \<mapsto> ''15'']"
  have t: "truthy (?task ''startTimestampUTC'')"
    and i: "fromISO (templ (?task ''startTimestampUTC'')) = Some (1759516200000, 0)"
    and n: "parseInt (templ (?task ''notify'')) = Some 15"
    by (simp_all add: fromISO_oct3 parseInt_15)
  show "shouldNotifyNow db 1759515300000 ?task"
    by (simp add: shouldNotifyNow_utc [OF t i n])
  show "\<not> shouldNotifyNow db 1759500900000 ?task"
    by (simp add: shouldNotifyNow_utc [OF t i n])
qed

text \<open>
  The hypotheses of C1 hold for a task at 2025-10-03T18:30:00Z with \<open>notify\<close> 0, and
  the last millisecond of that minute (1759516259999) still fires.
\<close>

theorem shouldNotifyNow_same_utc_minute_witness:
  "truthy ([''startTimestampUTC'' \<mapsto> ''2025-10-03T18:30:00.000Z'', ''notify'' \<mapsto> ''0''] ''startTimestampUTC'')
   \<and> fromISO (templ ([''startTimestampUTC'' \<mapsto> ''2025-10-03T18:30:00.000Z'', ''notify'' \<mapsto> ''0''] ''startTimestampUTC'')) = Some (1759516200000, 0)
   \<and> parseInt (templ ([''startTimestampUTC'' \<mapsto> ''2025-10-03T18:30:00.000Z'', ''notify'' \<mapsto> ''0''] ''notify'')) = Some 0
   \<and> shouldNotifyNow tzdbExcerpt 1759516259999 [''startTimestampUTC'' \<mapsto> ''2025-10-03T18:30:00.000Z'', ''notify'' \<mapsto> ''0'']"
proof -
  have h: "truthy ([''startTimestampUTC'' \<mapsto> ''2025-10-03T18:30:00.000Z'', ''notify'' \<mapsto> ''0''] ''startTimestampUTC'')
   \<and> fromISO (templ ([''startTimestampUTC'' \<mapsto> ''2025-10-03T18:30:00.000Z'', ''notify'' \<mapsto> ''0''] ''startTimestampUTC'')) = Some (1759516200000, 0)
   \<and> parseInt (templ ([''startTimestampUTC'' \<mapsto> ''2025-10-03T18:30:00.000Z'', ''notify'' \<mapsto> ''0''] ''notify'')) = Some 0"
    by (simp add: fromISO_oct3 parseInt_0)
  from shouldNotifyNow_same_utc_minute
         [of "[''startTimestampUTC'' \<mapsto> ''2025-10-03T18:30:00.000Z'', ''notify'' \<mapsto> ''0'']"
             1759516200000 0 tzdbExcerpt 1759516259999] h
  have "shouldNotifyNow tzdbExcerpt 1759516259999
          [''startTimestampUTC'' \<mapsto> ''2025-10-03T18:30:00.000Z'', ''notify'' \<mapsto> ''0'']"
    by simp
  with h show ?thesis by blast
qed

text \<open>
  Claim C2, as the code has it. Without a \<open>startTimestampUTC\<close> the function falls back
  to the local fields read in the task's zone. It returns false when that pair is
  incomplete (the date or the time is missing or empty), for every current time and
  every database.
\<close>

theorem shouldNotifyNow_incomplete_draft_never_fires:
  "\<not> truthy (taskData ''startTimestampUTC'')
   \<Longrightarrow> \<not> truthy (taskData ''startDateISO'') \<or> \<not> truthy (taskData ''startTime'')
   \<Longrightarrow> \<not> shouldNotifyNow db nowUTC taskData"
proof -
  assume absent: "\<not> truthy (taskData ''startTimestampUTC'')"
    and draft: "\<not> truthy (taskData ''startDateISO'') \<or> \<not> truthy (taskData ''startTime'')"
  have "fromFormat db nowUTC
          (templ (taskData ''startDateISO'') @ '' '' @ templ (taskData ''startTime''))
          (taskData ''timeZone'') = None"
    by (simp only: fromFormat_def parse_incomplete [OF draft] option.case)
  with absent show ?thesis
    by (simp add: shouldNotifyNow_def)
qed

text \<open>A draft with a date and no time, and no timestamp, does not fire.\<close>

theorem shouldNotifyNow_incomplete_draft_never_fires_witness:
  "\<not> truthy ([''startDateISO'' \<mapsto> ''2025-10-03'', ''timeZone'' \<mapsto> ''America/New_York'', ''notify'' \<mapsto> ''15''] ''startTimestampUTC'')
   \<and> \<not> truthy ([''startDateISO'' \<mapsto> ''2025-10-03'', ''timeZone'' \<mapsto> ''America/New_York'', ''notify'' \<mapsto> ''15''] ''startTime'')
   \<and> \<not> shouldNotifyNow tzdbExcerpt 1759515300000
         [''startDateISO'' \<mapsto> ''2025-10-03'', ''timeZone'' \<mapsto> ''America/New_York'', ''notify'' \<mapsto> ''15'']"
  using shouldNotifyNow_incomplete_draft_never_fires
          [of "[''startDateISO'' \<mapsto> ''2025-10-03'', ''timeZone'' \<mapsto> ''America/New_York'', ''notify'' \<mapsto> ''15'']"
              tzdbExcerpt 1759515300000]
  by simp

text \<open>
  C2 as stated fails: a task without \<open>startTimestampUTC\<close> that carries a complete local
  date and time (14:30 in New York on 2025-10-03, lead 15 minutes) fires at
  2025-10-03T18:15:00Z.
\<close>

theorem shouldNotifyNow_fires_without_timestamp:
  "shouldNotifyNow tzdbExcerpt 1759515300000
     [''startTimestampUTC'' \<mapsto> [], ''startDateISO'' \<mapsto> ''2025-10-03'', ''startTime'' \<mapsto> ''14:30'',
      ''timeZone'' \<mapsto> ''America/New_York'', ''notify'' \<mapsto> ''15'']"
  by code_simp

section \<open>Forward conversion\<close>

text \<open>
  Claim C8. \<open>toUTCTimestamp('2025-10-03', '14:30', 'America/New_York')\<close> is
  \<open>2025-10-03T18:30:00.000Z\<close>, whenever it is called.
\<close>

theorem toUTCTimestamp_new_york_october:
  "toUTCTimestamp tzdbExcerpt tsNow (Some ''2025-10-03'') (Some ''14:30'') (Some ''America/New_York'')
     = ''2025-10-03T18:30:00.000Z''"
proof -
  have "toUTCTimestamp tzdbExcerpt tsNow (Some ''2025-10-03'') (Some ''14:30'') (Some ''America/New_York'')
      = toISO (fst (fixOffset (objToLocalTS \<lparr> year = 2025, month = 10, day = 3, hour = 14, minute = 30, second = 0, millisecond = 0 \<rparr>) (America_New_York tsNow) America_New_York), 0)"
    using parse_oct3 New_York_excerpt valid_oct3
    by (intro toUTCTimestamp_resolved) simp_all
  then show ?thesis
    using New_York_offsets [of tsNow] iso_oct3 by auto
qed

text \<open>C8 for a call on 2025-07-01T12:00:00Z.\<close>

theorem toUTCTimestamp_new_york_october_witness:
  "toUTCTimestamp tzdbExcerpt 1751371200000 (Some ''2025-10-03'') (Some ''14:30'') (Some ''America/New_York'')
     = ''2025-10-03T18:30:00.000Z''"
  using toUTCTimestamp_new_york_october [of 1751371200000] by simp

text \<open>
  Claim C7. 02:30 on 2025-03-09 does not exist in New York. \<open>toUTCTimestamp\<close> returns
  a timestamp for it all the same, whenever it is called: \<open>2025-03-09T07:30:00.000Z\<close>,
  which is 03:30 daylight time, the wall-clock value moved forward by the hour of the
  gap.
\<close>

theorem toUTCTimestamp_spring_forward_gap:
  "toUTCTimestamp tzdbExcerpt tsNow (Some ''2025-03-09'') (Some ''02:30'') (Some ''America/New_York'')
     = ''2025-03-09T07:30:00.000Z''"
proof -
  have "toUTCTimestamp tzdbExcerpt tsNow (Some ''2025-03-09'') (Some ''02:30'') (Some ''America/New_York'')
      = toISO (fst (fixOffset (objToLocalTS \<lparr> year = 2025, month = 3, day = 9, hour = 2, minute = 30, second = 0, millisecond = 0 \<rparr>) (America_New_York tsNow) America_New_York), 0)"
    using parse_mar9 New_York_excerpt valid_mar9
    by (intro toUTCTimestamp_resolved) simp_all
  then show ?thesis
    using New_York_offsets [of tsNow] iso_mar9 by auto
qed

text \<open>C7 for a call on 2025-12-01T12:00:00Z.\<close>

theorem toUTCTimestamp_spring_forward_gap_witness:
  "toUTCTimestamp tzdbExcerpt 1764590400000 (Some ''2025-03-09'') (Some ''02:30'') (Some ''America/New_York'')
     = ''2025-03-09T07:30:00.000Z''"
  using toUTCTimestamp_spring_forward_gap [of 1764590400000] by simp

text \<open>
  Claim C6, as the code has it. 01:30 on 2025-11-02 occurs twice in New York. Which
  occurrence \<open>toUTCTimestamp\<close> returns depends on the zone's offset at the time of the
  call, since the library starts its search there: the first occurrence
  (\<open>2025-11-02T05:30:00.000Z\<close>) when the call is made during daylight time, the second
  (\<open>2025-11-02T06:30:00.000Z\<close>) when it is made during standard time.
\<close>

theorem toUTCTimestamp_fall_back_by_current_offset:
  "toUTCTimestamp tzdbExcerpt tsNow (Some ''2025-11-02'') (Some ''01:30'') (Some ''America/New_York'')
     = (if America_New_York tsNow = - 240 then ''2025-11-02T05:30:00.000Z''
        else ''2025-11-02T06:30:00.000Z'')"
proof -
  have "toUTCTimestamp tzdbExcerpt tsNow (Some ''2025-11-02'') (Some ''01:30'') (Some ''America/New_York'')
      = toISO (fst (fixOffset (objToLocalTS \<lparr> year = 2025, month = 11, day = 2, hour = 1, minute = 30, second = 0, millisecond = 0 \<rparr>) (America_New_York tsNow) America_New_York), 0)"
    using parse_nov2 New_York_excerpt valid_nov2
    by (intro toUTCTimestamp_resolved) simp_all
  then show ?thesis
    using New_York_offsets [of tsNow] iso_nov2 by auto
qed

text \<open>C6 for a call on 2025-07-01T12:00:00Z, during daylight time.\<close>

theorem toUTCTimestamp_fall_back_by_current_offset_witness:
  "toUTCTimestamp tzdbExcerpt 1751371200000 (Some ''2025-11-02'') (Some ''01:30'') (Some ''America/New_York'')
     = ''2025-11-02T05:30:00.000Z''"
  using toUTCTimestamp_fall_back_by_current_offset [of 1751371200000]
  by (simp add: America_New_York_def)

text \<open>
  C6 as stated fails: a call on 2025-12-01T12:00:00Z returns the second occurrence,
  a call on 2025-07-01T12:00:00Z the first.
\<close>

theorem toUTCTimestamp_fall_back_varies:
  "toUTCTimestamp tzdbExcerpt 1764590400000 (Some ''2025-11-02'') (Some ''01:30'') (Some ''America/New_York'')
     = ''2025-11-02T06:30:00.000Z''
   \<and> toUTCTimestamp tzdbExcerpt 1751371200000 (Some ''2025-11-02'') (Some ''01:30'') (Some ''America/New_York'')
     = ''2025-11-02T05:30:00.000Z''"
  by code_simp

text \<open>
  Claim C5, as the code has it. \<open>toUTCTimestamp\<close> has no error values. When the zone
  identifier is not recognised it returns the empty string, whatever the other
  arguments and the current time are (no other zone stands in for it); it returns the
  empty string as well when the date or the time is missing.
\<close>

theorem toUTCTimestamp_failure_is_empty_string:
  "db timezone = None \<or> \<not> truthy dateISO \<or> \<not> truthy time
   \<Longrightarrow> toUTCTimestamp db tsNow dateISO time timezone = []"
  by (auto simp add: toUTCTimestamp_def fromFormat_def fromObject_def split: option.splits)

text \<open>An identifier that the database does not know.\<close>

theorem toUTCTimestamp_failure_is_empty_string_witness:
  "tzdbExcerpt (Some ''Mars/Olympus_Mons'') = None
   \<and> toUTCTimestamp tzdbExcerpt 1764590400000 (Some ''2025-10-03'') (Some ''14:30'')
       (Some ''Mars/Olympus_Mons'') = []"
proof -
  have h: "tzdbExcerpt (Some ''Mars/Olympus_Mons'') = None"
    by (simp add: tzdbExcerpt_def)
  with toUTCTimestamp_failure_is_empty_string
         [of tzdbExcerpt "Some ''Mars/Olympus_Mons''" "Some ''2025-10-03''" "Some ''14:30''" 1764590400000]
  show ?thesis by simp
qed

text \<open>
  C5 as stated fails: an unknown zone and a date without a time give the same result,
  the empty string, so the two failures are not distinct.
\<close>

theorem toUTCTimestamp_failures_not_distinct:
  "toUTCTimestamp tzdbExcerpt 1764590400000 (Some ''2025-10-03'') (Some ''14:30'') (Some ''Mars/Olympus_Mons'')
     = toUTCTimestamp tzdbExcerpt 1764590400000 (Some ''2025-10-03'') None (Some ''America/New_York'')"
  by code_simp

section \<open>Backward conversion\<close>

text \<open>
  Claim C10, as the code has it. For an empty (or missing) timestamp
  \<open>fromUTCTimestamp\<close> returns empty \<open>dateISO\<close> and \<open>time\<close>, for every database and
  every zone argument, recognised or not. \<open>Task.update\<close> does not call it when a
  schedule is cleared: the guard \<open>validatedChanges.startTimestampUTC && ...\<close> skips
  the projection of an empty timestamp. So an update that sets \<open>startTimestampUTC\<close>
  to the empty string changes that field of the stored task and no other, and an update
  that sets \<open>startTime\<close> to the empty string changes \<open>startTime\<close> and
  \<open>startTimestampUTC\<close> and no other field: the cached fields that the update does
  not name stay as they were stored.
\<close>

theorem fromUTCTimestamp_empty_and_clearing:
  "fromUTCTimestamp db (Some []) timezone = [''dateISO'' \<mapsto> [], ''time'' \<mapsto> []]
   \<and> fromUTCTimestamp db None timezone = [''dateISO'' \<mapsto> [], ''time'' \<mapsto> []]
   \<and> Task_update db tsNow currentTask [''startTimestampUTC'' \<mapsto> []]
       = currentTask(''startTimestampUTC'' \<mapsto> [])
   \<and> Task_update db tsNow currentTask [''startTime'' \<mapsto> []]
       = currentTask(''startTime'' \<mapsto> [], ''startTimestampUTC'' \<mapsto> [])"
  by (simp add: fromUTCTimestamp_def Task_update_def Task_update_changes_def Let_def nullish_def)

text \<open>
  C10 with a zone identifier that the database does not know, and for a Tokyo task
  whose timestamp is cleared: its cached date stays.
\<close>

theorem fromUTCTimestamp_empty_and_clearing_witness:
  "fromUTCTimestamp tzdbExcerpt (Some []) (Some ''Mars/Olympus_Mons'') = [''dateISO'' \<mapsto> [], ''time'' \<mapsto> []]
   \<and> Task_update tzdbExcerpt 0
        [''startTimestampUTC'' \<mapsto> ''2025-10-03T05:30:00.000Z'', ''startDateISO'' \<mapsto> ''2025-10-03'',
         ''startTime'' \<mapsto> ''14:30'', ''timeZone'' \<mapsto> ''Asia/Tokyo'']
        [''startTimestampUTC'' \<mapsto> []] ''startDateISO'' = Some ''2025-10-03''"
  using fromUTCTimestamp_empty_and_clearing [of tzdbExcerpt "Some ''Mars/Olympus_Mons''" 0
      "[''startTimestampUTC'' \<mapsto> ''2025-10-03T05:30:00.000Z'', ''startDateISO'' \<mapsto> ''2025-10-03'',
        ''startTime'' \<mapsto> ''14:30'', ''timeZone'' \<mapsto> ''Asia/Tokyo'']"]
  by simp

text \<open>
  C10 as stated fails in its consequence, that clearing a schedule yields empty cached
  display fields: an update that clears the timestamp of a New York task scheduled for
  14:30 on 2025-10-03 stores the empty timestamp beside the date 2025-10-03 and the
  time 14:30.
\<close>

theorem Task_update_clear_keeps_cached_fields:
  "Task_update tzdbExcerpt 1764590400000
     [''startTimestampUTC'' \<mapsto> ''2025-10-03T18:30:00.000Z'', ''startDateISO'' \<mapsto> ''2025-10-03'',
      ''startTime'' \<mapsto> ''14:30'', ''timeZone'' \<mapsto> ''America/New_York'']
     [''startTimestampUTC'' \<mapsto> []] ''startTimestampUTC'' = Some []
   \<and> Task_update tzdbExcerpt 1764590400000
     [''startTimestampUTC'' \<mapsto> ''2025-10-03T18:30:00.000Z'', ''startDateISO'' \<mapsto> ''2025-10-03'',
      ''startTime'' \<mapsto> ''14:30'', ''timeZone'' \<mapsto> ''America/New_York'']
     [''startTimestampUTC'' \<mapsto> []] ''startDateISO'' = Some ''2025-10-03''
   \<and> Task_update tzdbExcerpt 1764590400000
     [''startTimestampUTC'' \<mapsto> ''2025-10-03T18:30:00.000Z'', ''startDateISO'' \<mapsto> ''2025-10-03'',
      ''startTime'' \<mapsto> ''14:30'', ''timeZone'' \<mapsto> ''America/New_York'']
     [''startTimestampUTC'' \<mapsto> []] ''startTime'' = Some ''14:30''"
  by code_simp

section \<open>The calendar: day numbers, years and months\<close>

lemma div_bounds:
  fixes x k :: int
  assumes "0 < k"
  shows "k * (x div k) \<le> x" and "x < k * (x div k) + k"
proof -
  have "x = k * (x div k) + x mod k" by simp
  moreover have "0 \<le> x mod k" "x mod k < k" using assms by simp_all
  ultimately show "k * (x div k) \<le> x" and "x < k * (x div k) + k"
    by linarith+
qed

lemma div_step:
  fixes x k :: int
  assumes "0 < k"
  shows "(x + 1) div k = x div k + (if (x + 1) mod k = 0 then 1 else 0)"
proof (cases "(x + 1) mod k = 0")
  case True
  then obtain q where q: "x + 1 = k * q"
    by (metis mod_eq_0_iff_dvd dvd_def)
  then have "x = k * (q - 1) + (k - 1)"
    by (simp add: algebra_simps)
  moreover have "0 \<le> k - 1" "k - 1 < k"
    using assms by simp_all
  ultimately have "x div k = q - 1"
    by (metis int_div_pos_eq)
  with q True show ?thesis
    using assms by simp
next
  case False
  have "x = k * (x div k) + x mod k" by simp
  moreover have "0 \<le> x mod k" "x mod k < k" using assms by simp_all
  moreover have "x mod k \<noteq> k - 1"
  proof
    assume "x mod k = k - 1"
    then have "(x + 1) mod k = 0"
      by (metis add.commute diff_add_cancel mod_add_left_eq mod_self)
    with False show False by simp
  qed
  ultimately have "x + 1 = k * (x div k) + (x mod k + 1)" "0 \<le> x mod k + 1" "x mod k + 1 < k"
    by linarith+
  then have "(x + 1) div k = x div k"
    by (metis int_div_pos_eq)
  with False show ?thesis by simp
qed

lemma mod_shift:
  fixes y k c :: int
  assumes "c mod k = 0"
  shows "((y - c) mod k = 0) = (y mod k = 0)"
  using assms mod_diff_eq [of y k c] by simp

lemma daysInYear: "dayFromYear (y + 1) = dayFromYear y + (if isLeapYear y then 366 else 365)"
proof -
  define A where "A = (y - 1969) div 4"
  define B where "B = (y - 1901) div 100"
  define C where "C = (y - 1601) div 400"
  define p4 where "p4 \<longleftrightarrow> y mod 4 = 0"
  define p100 where "p100 \<longleftrightarrow> y mod 100 = 0"
  define p400 where "p400 \<longleftrightarrow> y mod 400 = 0"
  have a: "(y + 1 - 1969) div 4 = A + (if p4 then 1 else 0)"
    using div_step [of 4 "y - 1969"] mod_shift [of 1968 4 y]
    by (simp add: algebra_simps A_def p4_def)
  have b: "(y + 1 - 1901) div 100 = B + (if p100 then 1 else 0)"
    using div_step [of 100 "y - 1901"] mod_shift [of 1900 100 y]
    by (simp add: algebra_simps B_def p100_def)
  have c: "(y + 1 - 1601) div 400 = C + (if p400 then 1 else 0)"
    using div_step [of 400 "y - 1601"] mod_shift [of 1600 400 y]
    by (simp add: algebra_simps C_def p400_def)
  have d: "p400 \<Longrightarrow> p100" "p100 \<Longrightarrow> p4"
    using mod_mod_cancel [of 100 400 y] mod_mod_cancel [of 4 100 y]
    by (simp_all add: p4_def p100_def p400_def)
  have l: "dayFromYear (y + 1) = 365 * (y + 1 - 1970) + (A + (if p4 then 1 else 0))
             - (B + (if p100 then 1 else 0)) + (C + (if p400 then 1 else 0))"
    by (simp only: dayFromYear_def a b c)
  have r: "dayFromYear y = 365 * (y - 1970) + A - B + C"
    by (simp only: dayFromYear_def A_def B_def C_def)
  have leap: "isLeapYear y = (p4 \<and> (\<not> p100 \<or> p400))"
    by (simp only: isLeapYear_def p4_def p100_def p400_def)
  show ?thesis
    unfolding l r leap using d by (cases p4; cases p100; cases p400; simp)
qed

lemma dayFromYear_less: "dayFromYear y < dayFromYear (y + 1)"
  by (simp add: daysInYear)

lemma dayFromYear_mono: "y \<le> y' \<Longrightarrow> dayFromYear y \<le> dayFromYear y'"
proof (induction y' rule: int_ge_induct)
  case base
  then show ?case by simp
next
  case (step i)
  then show ?case using dayFromYear_less [of i] by simp
qed

lemma year_unique:
  assumes "dayFromYear y \<le> n" "n < dayFromYear (y + 1)"
    and "dayFromYear y' \<le> n" "n < dayFromYear (y' + 1)"
  shows "y = y'"
proof (rule ccontr)
  assume "y \<noteq> y'"
  then consider "y + 1 \<le> y'" | "y' + 1 \<le> y" by linarith
  then show False
  proof cases
    case 1
    from dayFromYear_mono [OF 1] assms show False by linarith
  next
    case 2
    from dayFromYear_mono [OF 2] assms show False by linarith
  qed
qed

lemma estimate_low: "dayFromYear (1970 + (n * 400) div 146097 - 1) \<le> n"
proof -
  define e where "e = (n * 400) div 146097"
  define q4 where "q4 = e div 4"
  define q100 where "q100 = (68 + e) div 100"
  define q400 where "q400 = (368 + e) div 400"
  define D where "D = dayFromYear (1970 + e - 1)"
  have e: "146097 * e \<le> n * 400"
    unfolding e_def by (rule div_bounds) simp
  have b4: "4 * q4 \<le> e"
    unfolding q4_def by (rule div_bounds) simp
  have "68 + e < 100 * q100 + 100"
    unfolding q100_def by (rule div_bounds) simp
  then have b100: "e - 31 \<le> 100 * q100"
    by linarith
  have b400: "400 * q400 \<le> 368 + e"
    unfolding q400_def by (rule div_bounds) simp
  have "D = 365 * (e - 1) + q4 - q100 + q400"
    by (simp add: D_def dayFromYear_def q4_def q100_def q400_def)
  then have "400 * D = 146000 * e - 146000 + 100 * (4 * q4) - 4 * (100 * q100) + 400 * q400"
    by simp
  also have "\<dots> \<le> 146000 * e - 146000 + 100 * e - 4 * (100 * q100) + 400 * q400"
    using b4 by simp
  also have "\<dots> \<le> 146000 * e - 146000 + 100 * e - 4 * (e - 31) + 400 * q400"
    using b100 by simp
  also have "\<dots> \<le> 146000 * e - 146000 + 100 * e - 4 * (e - 31) + (368 + e)"
    using b400 by simp
  also have "\<dots> = 146097 * e - 145508"
    by simp
  also have "\<dots> \<le> 400 * n"
    using e by simp
  finally have "D \<le> n"
    by simp
  then show ?thesis
    by (simp add: D_def e_def)
qed

lemma estimate_high: "n < dayFromYear (1970 + (n * 400) div 146097 + 2)"
proof -
  define e where "e = (n * 400) div 146097"
  define q4 where "q4 = (3 + e) div 4"
  define q100 where "q100 = (71 + e) div 100"
  define q400 where "q400 = (371 + e) div 400"
  define D where "D = dayFromYear (1970 + e + 2)"
  have "n * 400 < 146097 * e + 146097"
    unfolding e_def by (rule div_bounds) simp
  then have e: "400 * n + 1 \<le> 146097 * e + 146097"
    by linarith
  have "3 + e < 4 * q4 + 4"
    unfolding q4_def by (rule div_bounds) simp
  then have b4: "e \<le> 4 * q4"
    by linarith
  have b100: "100 * q100 \<le> 71 + e"
    unfolding q100_def by (rule div_bounds) simp
  have "371 + e < 400 * q400 + 400"
    unfolding q400_def by (rule div_bounds) simp
  then have b400: "e - 28 \<le> 400 * q400"
    by linarith
  have "D = 365 * (e + 2) + q4 - q100 + q400"
    by (simp add: D_def dayFromYear_def q4_def q100_def q400_def)
  then have d: "400 * D = 146000 * e + 292000 + 100 * (4 * q4) - 4 * (100 * q100) + 400 * q400"
    by simp
  have "400 * n + 1 \<le> 146097 * e + 146097"
    by (rule e)
  also have "\<dots> \<le> 146000 * e + 292000 + 100 * e - 4 * (71 + e) + (e - 28)"
    by simp
  also have "\<dots> \<le> 146000 * e + 292000 + 100 * (4 * q4) - 4 * (71 + e) + (e - 28)"
    using b4 by simp
  also have "\<dots> \<le> 146000 * e + 292000 + 100 * (4 * q4) - 4 * (100 * q100) + (e - 28)"
    using b100 by simp
  also have "\<dots> \<le> 146000 * e + 292000 + 100 * (4 * q4) - 4 * (100 * q100) + 400 * q400"
    using b400 by simp
  also have "\<dots> = 400 * D"
    using d by simp
  finally have "n < D"
    by simp
  then show ?thesis
    by (simp add: D_def e_def)
qed

lemma yearFromDay_bracket:
  "dayFromYear (yearFromDay n) \<le> n \<and> n < dayFromYear (yearFromDay n + 1)"
proof -
  define y where "y = 1970 + (n * 400) div 146097"
  have lo: "dayFromYear (y - 1) \<le> n" and hi: "n < dayFromYear (y + 2)"
    using estimate_low [of n] estimate_high [of n] by (simp_all add: y_def)
  have "yearFromDay n = (if n < dayFromYear y then y - 1 else if dayFromYear (y + 1) \<le> n then y + 1 else y)"
    by (simp add: yearFromDay_def y_def Let_def)
  with lo hi show ?thesis
    by (auto simp add: algebra_simps)
qed

lemma yearFromDay_eq: "dayFromYear y \<le> n \<Longrightarrow> n < dayFromYear (y + 1) \<Longrightarrow> yearFromDay n = y"
  using yearFromDay_bracket [of n] year_unique by blast

lemma divmod_unique:
  fixes a b q r :: int
  assumes "a = b * q + r" "0 \<le> r" "r < b"
  shows "a div b = q" and "a mod b = r"
  using assms int_div_pos_eq [of a b q r] int_mod_pos_eq [of a b q r] by simp_all

lemma div_range:
  fixes x k c :: int
  assumes "0 < k" "0 \<le> x" "x < k * c"
  shows "0 \<le> x div k" and "x div k < c"
proof -
  show "0 \<le> x div k"
    using assms by (simp add: pos_imp_zdiv_nonneg_iff)
  have a: "k * (x div k) \<le> x"
    using assms(1) by (rule div_bounds)
  from a assms(3) have "k * (x div k) < k * c"
    by (rule le_less_trans)
  with assms(1) show "x div k < c"
    by (simp only: mult_less_cancel_left_pos)
qed

lemma month_cases:
  fixes m :: int
  assumes "1 \<le> m" "m \<le> 12"
  obtains "m = 1" | "m = 2" | "m = 3" | "m = 4" | "m = 5" | "m = 6"
    | "m = 7" | "m = 8" | "m = 9" | "m = 10" | "m = 11" | "m = 12"
proof -
  from assms have "m \<in> set [1..12]"
    by simp
  then have "m = 1 \<or> m = 2 \<or> m = 3 \<or> m = 4 \<or> m = 5 \<or> m = 6
      \<or> m = 7 \<or> m = 8 \<or> m = 9 \<or> m = 10 \<or> m = 11 \<or> m = 12"
    by (simp add: upto.simps)
  with that show thesis
    by blast
qed

lemma daysBeforeMonth_1 [simp]: "daysBeforeMonth y 1 = 0"
  by (simp add: daysBeforeMonth_def)

lemma daysBeforeMonth_13: "daysBeforeMonth y 13 = (if isLeapYear y then 366 else 365)"
  by (simp add: daysBeforeMonth_def)

lemma daysBeforeMonth_Suc:
  assumes "1 \<le> m" "m \<le> 12"
  shows "daysBeforeMonth y (m + 1) = daysBeforeMonth y m + daysInMonth y m"
  using assms
  by (cases m rule: month_cases) (simp_all add: daysBeforeMonth_def daysInMonth_def)

lemma daysBeforeMonth_bounds:
  assumes "1 \<le> m" "m \<le> 12"
  shows "0 \<le> daysBeforeMonth y m" and "daysBeforeMonth y (m + 1) \<le> daysBeforeMonth y 13"
  using assms
  by (cases m rule: month_cases; simp add: daysBeforeMonth_def)+

lemma monthFromDayInYear_range: "1 \<le> monthFromDayInYear y d \<and> monthFromDayInYear y d \<le> 12"
  by (simp add: monthFromDayInYear_def)

lemma monthFromDayInYear_bracket:
  assumes "0 \<le> d" "d < daysBeforeMonth y 13"
  shows "daysBeforeMonth y (monthFromDayInYear y d) \<le> d
       \<and> d < daysBeforeMonth y (monthFromDayInYear y d + 1)"
  using assms by (simp add: monthFromDayInYear_def)

lemma monthFromDayInYear_eq:
  assumes "1 \<le> m" "m \<le> 12" "daysBeforeMonth y m \<le> d" "d < daysBeforeMonth y (m + 1)"
  shows "monthFromDayInYear y d = m"
  using assms
  by (cases m rule: month_cases; cases "isLeapYear y";
      simp add: monthFromDayInYear_def daysBeforeMonth_def)

section \<open>Timestamps and calendar fields are inverse to each other\<close>

lemma time_fields:
  fixes h mi s ms :: int
  assumes "0 \<le> h" "0 \<le> mi" "mi \<le> 59" "0 \<le> s" "s \<le> 59" "0 \<le> ms" "ms \<le> 999"
  defines "T \<equiv> h * 3600000 + mi * 60000 + s * 1000 + ms"
  shows "T div 3600000 = h" and "T mod 3600000 div 60000 = mi"
    and "T mod 60000 div 1000 = s" and "T mod 1000 = ms"
proof -
  have r1: "0 \<le> mi * 60000 + s * 1000 + ms" "mi * 60000 + s * 1000 + ms < 3600000"
    using assms(2-7) by simp_all
  have r2: "0 \<le> s * 1000 + ms" "s * 1000 + ms < 60000"
    using assms(4-7) by simp_all
  have e1: "T = 3600000 * h + (mi * 60000 + s * 1000 + ms)"
    by (simp add: T_def)
  show "T div 3600000 = h"
    using e1 r1 by (rule divmod_unique)
  have m1: "T mod 3600000 = mi * 60000 + s * 1000 + ms"
    using e1 r1 by (rule divmod_unique)
  have e2: "mi * 60000 + s * 1000 + ms = 60000 * mi + (s * 1000 + ms)"
    by simp
  show "T mod 3600000 div 60000 = mi"
    unfolding m1 using e2 r2 by (rule divmod_unique)
  have e3: "T = 60000 * (h * 60 + mi) + (s * 1000 + ms)"
    by (simp add: T_def)
  have m3: "T mod 60000 = s * 1000 + ms"
    using e3 r2 by (rule divmod_unique)
  have e4: "s * 1000 + ms = 1000 * s + ms"
    by simp
  show "T mod 60000 div 1000 = s"
    unfolding m3 using e4 assms(6) by (rule divmod_unique) (use assms(7) in simp)
  have e5: "T = 1000 * (h * 3600 + mi * 60 + s) + ms"
    by (simp add: T_def)
  show "T mod 1000 = ms"
    using e5 assms(6) by (rule divmod_unique) (use assms(7) in simp)
qed

lemma tsToObj_objToLocalTS:
  assumes g: "\<not> hasInvalidGregorianData obj" and t: "\<not> hasInvalidTimeData obj"
    and h24: "hour obj \<noteq> 24"
  shows "tsToObj (objToLocalTS obj - c * 60 * 1000) c = (obj :: dateobj)"
proof -
  define y m d where "y = year obj" and "m = month obj" and "d = day obj"
  define N where "N = dayFromYear y + daysBeforeMonth y m + (d - 1)"
  define T where "T = hour obj * 3600000 + minute obj * 60000 + second obj * 1000 + millisecond obj"
  from g have m: "1 \<le> m" "m \<le> 12" and d: "1 \<le> d" "d \<le> daysInMonth y m"
    by (simp_all add: hasInvalidGregorianData_def y_def m_def d_def)
  from t h24 have tr: "0 \<le> hour obj" "hour obj \<le> 23" "0 \<le> minute obj" "minute obj \<le> 59"
      "0 \<le> second obj" "second obj \<le> 59" "0 \<le> millisecond obj" "millisecond obj \<le> 999"
    by (auto simp add: hasInvalidTimeData_def Let_def)
  have T: "0 \<le> T" "T < msPerDay"
    using tr by (simp_all add: T_def msPerDay_def)
  have ts: "objToLocalTS obj - c * 60 * 1000 + c * 60 * 1000 = msPerDay * N + T"
    by (simp add: objToLocalTS_def N_def T_def y_def m_def d_def)
  have dn: "(msPerDay * N + T) div msPerDay = N" and tm: "(msPerDay * N + T) mod msPerDay = T"
    using T by (simp_all add: divmod_unique [of "msPerDay * N + T" msPerDay N T])
  have b0: "0 \<le> daysBeforeMonth y m" and b1: "daysBeforeMonth y (m + 1) \<le> daysBeforeMonth y 13"
    using m by (rule daysBeforeMonth_bounds)+
  have b2: "daysBeforeMonth y (m + 1) = daysBeforeMonth y m + daysInMonth y m"
    using m by (rule daysBeforeMonth_Suc)
  have b3: "dayFromYear (y + 1) = dayFromYear y + daysBeforeMonth y 13"
    by (simp add: daysInYear daysBeforeMonth_13)
  have "dayFromYear y \<le> N" "N < dayFromYear (y + 1)"
    using b0 b1 b2 b3 d by (simp_all add: N_def)
  then have yr: "yearFromDay N = y"
    by (rule yearFromDay_eq)
  have diy: "N - dayFromYear y = daysBeforeMonth y m + (d - 1)"
    by (simp add: N_def)
  have mo: "monthFromDayInYear y (daysBeforeMonth y m + (d - 1)) = m"
    using m b2 d by (intro monthFromDayInYear_eq) simp_all
  have tf: "T div 3600000 = hour obj" "T mod 3600000 div 60000 = minute obj"
      "T mod 60000 div 1000 = second obj" "T mod 1000 = millisecond obj"
    unfolding T_def using tr by (intro time_fields; simp)+
  have "tsToObj (objToLocalTS obj - c * 60 * 1000) c
      = \<lparr> year = y, month = m, day = d, hour = hour obj, minute = minute obj,
          second = second obj, millisecond = millisecond obj \<rparr>"
    unfolding tsToObj_def ts Let_def dn tm yr diy mo tf by simp
  then show ?thesis
    by (simp add: y_def m_def d_def)
qed

lemma objToLocalTS_tsToObj: "objToLocalTS (tsToObj ts c) = ts + c * 60 * 1000"
proof -
  define t where "t = ts + c * 60 * 1000"
  define tm where "tm = t mod msPerDay"
  have a: "tm = tm div 3600000 * 3600000 + tm mod 3600000"
    by simp
  have b: "tm mod 3600000 = tm mod 3600000 div 60000 * 60000 + tm mod 3600000 mod 60000"
    by simp
  have b': "tm mod 3600000 mod 60000 = tm mod 60000"
    by (simp add: mod_mod_cancel)
  have c: "tm mod 60000 = tm mod 60000 div 1000 * 1000 + tm mod 60000 mod 1000"
    by simp
  have c': "tm mod 60000 mod 1000 = tm mod 1000"
    by (simp add: mod_mod_cancel)
  have d: "t = t div msPerDay * msPerDay + tm"
    by (simp add: tm_def)
  have "objToLocalTS (tsToObj ts c) = t div msPerDay * msPerDay
          + (tm div 3600000 * 3600000 + tm mod 3600000 div 60000 * 60000
             + tm mod 60000 div 1000 * 1000 + tm mod 1000)"
    by (simp add: objToLocalTS_def tsToObj_def Let_def t_def tm_def)
  also have "\<dots> = t div msPerDay * msPerDay + tm"
    using a b b' c c' by linarith
  finally show ?thesis
    using d by (simp add: t_def)
qed

lemma tsToObj_fields_valid:
  "\<not> hasInvalidGregorianData (tsToObj ts c)" (is ?g)
  "\<not> hasInvalidTimeData (tsToObj ts c)" (is ?t)
proof -
  define t where "t = ts + c * 60 * 1000"
  define n where "n = t div msPerDay"
  define tm where "tm = t mod msPerDay"
  define y where "y = yearFromDay n"
  define diy where "diy = n - dayFromYear y"
  define m where "m = monthFromDayInYear y diy"
  define hh where "hh = tm div 3600000"
  define mm where "mm = tm mod 3600000 div 60000"
  define ss where "ss = tm mod 60000 div 1000"
  define ms where "ms = tm mod 1000"
  have f: "year (tsToObj ts c) = y" "month (tsToObj ts c) = m"
      "day (tsToObj ts c) = diy - daysBeforeMonth y m + 1"
      "hour (tsToObj ts c) = hh" "minute (tsToObj ts c) = mm"
      "second (tsToObj ts c) = ss" "millisecond (tsToObj ts c) = ms"
    by (simp_all add: tsToObj_def Let_def t_def n_def tm_def y_def diy_def m_def
          hh_def mm_def ss_def ms_def)
  have br: "dayFromYear y \<le> n" "n < dayFromYear (y + 1)"
    using yearFromDay_bracket [of n] by (simp_all add: y_def)
  have b3: "dayFromYear (y + 1) = dayFromYear y + daysBeforeMonth y 13"
    by (simp add: daysInYear daysBeforeMonth_13)
  have d0: "0 \<le> diy" "diy < daysBeforeMonth y 13"
    using br b3 by (simp_all add: diy_def)
  have mr: "1 \<le> m" "m \<le> 12"
    using monthFromDayInYear_range [of y diy] by (simp_all add: m_def)
  have mb: "daysBeforeMonth y m \<le> diy" "diy < daysBeforeMonth y (m + 1)"
    using monthFromDayInYear_bracket [OF d0] by (simp_all add: m_def)
  have b2: "daysBeforeMonth y (m + 1) = daysBeforeMonth y m + daysInMonth y m"
    using mr by (rule daysBeforeMonth_Suc)
  show ?g
    using mr mb b2 by (simp add: hasInvalidGregorianData_def f)
  have tmr: "0 \<le> tm" "tm < 3600000 * 24"
    by (simp_all add: tm_def msPerDay_def)
  have hr: "0 \<le> hh" "hh \<le> 23"
    using div_range [of 3600000 tm 24] tmr by (simp_all add: hh_def)
  have mi: "0 \<le> mm" "mm \<le> 59"
    using div_range [of 60000 "tm mod 3600000" 60] by (simp_all add: mm_def)
  have se: "0 \<le> ss" "ss \<le> 59"
    using div_range [of 1000 "tm mod 60000" 60] by (simp_all add: ss_def)
  have "0 \<le> ms" "ms < 1000"
    by (simp_all add: ms_def)
  then have ml: "0 \<le> ms" "ms \<le> 999"
    by simp_all
  show ?t
    using hr mi se ml by (simp add: hasInvalidTimeData_def f Let_def)
qed

section \<open>Digit strings\<close>

lemma digitVal_range: "isDigit c \<Longrightarrow> 0 \<le> digitVal c \<and> digitVal c \<le> 9"
  by (auto simp add: isDigit_def digitVal_def)

lemma digitChar_digitVal: "isDigit c \<Longrightarrow> digitChar (nat (digitVal c)) = c"
proof -
  assume "isDigit c"
  then have "48 + nat (digitVal c) = (of_char c :: nat)"
    by (simp add: isDigit_def digitVal_def, linarith)
  then show ?thesis
    by (simp add: digitChar_def)
qed

lemma isDigit_digitChar: "d < 10 \<Longrightarrow> isDigit (digitChar d)"
  by (simp add: isDigit_def digitChar_def)

lemma digitVal_digitChar: "d < 10 \<Longrightarrow> digitVal (digitChar d) = int d"
  by (simp add: digitVal_def digitChar_def)

lemma allDigits_append [simp]: "allDigits (xs @ ys) = (allDigits xs \<and> allDigits ys)"
  by (induction xs) simp_all

lemma parseDigits_snoc: "parseDigits (xs @ [c]) = 10 * parseDigits xs + digitVal c"
  by (simp add: parseDigits_def)

lemma parseDigits_nonneg: "allDigits xs \<Longrightarrow> 0 \<le> parseDigits xs"
proof (induction xs rule: rev_induct)
  case Nil
  then show ?case by (simp add: parseDigits_def)
next
  case (snoc c xs)
  then show ?case
    using digitVal_range [of c] by (simp add: parseDigits_snoc)
qed

lemma allDigits_showNat: "allDigits (showNat n)"
proof (induction n rule: showNat.induct)
  case (1 n)
  show ?case
  proof (cases "n < 10")
    case True
    then show ?thesis
      by (simp add: showNat.simps [of n] isDigit_digitChar)
  next
    case False
    with 1 show ?thesis
      by (simp add: showNat.simps [of n] isDigit_digitChar)
  qed
qed

lemma parseDigits_showNat: "parseDigits (showNat n) = int n"
proof (induction n rule: showNat.induct)
  case (1 n)
  show ?case
  proof (cases "n < 10")
    case True
    then show ?thesis
      by (simp add: showNat.simps [of n] parseDigits_def digitVal_digitChar)
  next
    case False
    then have "parseDigits (showNat n) = 10 * int (n div 10) + int (n mod 10)"
      using 1 by (simp add: showNat.simps [of n] parseDigits_snoc digitVal_digitChar)
    also have "\<dots> = int n"
      by (simp add: of_nat_div of_nat_mod)
    finally show ?thesis .
  qed
qed

lemma length_showNat: "n < 10 ^ k \<Longrightarrow> 0 < k \<Longrightarrow> length (showNat n) \<le> k"
proof (induction n arbitrary: k rule: showNat.induct)
  case (1 n)
  show ?case
  proof (cases "n < 10")
    case True
    with 1 show ?thesis
      by (simp add: showNat.simps [of n] Suc_leI)
  next
    case False
    from 1(3) obtain j where k: "k = Suc j"
      by (cases k) simp_all
    from False 1(2) k have "0 < j"
      by (cases j) simp_all
    moreover from 1(2) k have "n div 10 < 10 ^ j"
      by (simp add: less_mult_imp_div_less mult.commute)
    ultimately have "length (showNat (n div 10)) \<le> j"
      using 1(1) False by simp
    with False k show ?thesis
      by (simp add: showNat.simps [of n])
  qed
qed

lemma parseDigits_zeros: "parseDigits (replicate j (CHR ''0'') @ s) = parseDigits s"
proof -
  have "foldl (\<lambda>a c. 10 * a + digitVal c) 0 (replicate j (CHR ''0'')) = 0"
    by (induction j) (simp_all add: digitVal_def)
  then show ?thesis
    by (simp add: parseDigits_def)
qed

lemma allDigits_zeros: "allDigits (replicate j (CHR ''0''))"
  by (induction j) (simp_all add: isDigit_def)

text \<open>A non-negative number below \<open>10^k\<close> is written with exactly \<open>k\<close> digits and reads back.\<close>

lemma padStart_digits:
  assumes "0 \<le> v" "v < 10 ^ k" "0 < k"
  shows "length (padStart v k) = k" "allDigits (padStart v k)" "parseDigits (padStart v k) = v"
proof -
  from assms have "nat v < 10 ^ k"
    by (metis nat_less_iff of_nat_numeral of_nat_power)
  then have l: "length (showNat (nat v)) \<le> k"
    using assms(3) by (rule length_showNat)
  have p: "padStart v k = replicate (k - length (showNat (nat v))) (CHR ''0'') @ showNat (nat v)"
    using assms(1) by (simp add: padStart_def padZeros_def)
  show "length (padStart v k) = k"
    using l by (simp add: p)
  show "allDigits (padStart v k)"
    by (simp add: p allDigits_zeros allDigits_showNat)
  show "parseDigits (padStart v k) = v"
    using assms(1) by (simp add: p parseDigits_zeros parseDigits_showNat)
qed

lemma parseDigits_bound: "allDigits xs \<Longrightarrow> parseDigits xs < 10 ^ length xs"
proof (induction xs rule: rev_induct)
  case Nil
  then show ?case by (simp add: parseDigits_def)
next
  case (snoc c xs)
  then have "parseDigits xs + 1 \<le> 10 ^ length xs" and "digitVal c \<le> 9"
    using digitVal_range [of c] by simp_all
  then have "10 * parseDigits xs + digitVal c < 10 * 10 ^ length xs"
    by linarith
  then show ?case
    by (simp add: parseDigits_snoc)
qed

text \<open>Digit strings of one length with one value are the same string.\<close>

lemma parseDigits_inj:
  assumes "length xs = length ys" "allDigits xs" "allDigits ys" "parseDigits xs = parseDigits ys"
  shows "xs = ys"
  using assms
proof (induction xs arbitrary: ys rule: rev_induct)
  case Nil
  then show ?case by simp
next
  case (snoc c xs)
  from snoc.prems(1) obtain d zs where ys: "ys = zs @ [d]"
    by (cases ys rule: rev_cases) simp_all
  from snoc.prems ys have dc: "isDigit c" "isDigit d" and az: "allDigits xs" "allDigits zs"
    and len: "length xs = length zs"
    by simp_all
  from snoc.prems(4) ys have e: "10 * parseDigits xs + digitVal c = 10 * parseDigits zs + digitVal d"
    by (simp add: parseDigits_snoc)
  have rc: "0 \<le> digitVal c" "digitVal c < 10" and rd: "0 \<le> digitVal d" "digitVal d < 10"
    using digitVal_range [OF dc(1)] digitVal_range [OF dc(2)] by simp_all
  have "(10 * parseDigits xs + digitVal c) div 10 = parseDigits xs"
    "(10 * parseDigits xs + digitVal c) mod 10 = digitVal c"
    using rc by (simp_all add: divmod_unique [of _ 10 "parseDigits xs" "digitVal c"])
  moreover have "(10 * parseDigits zs + digitVal d) div 10 = parseDigits zs"
    "(10 * parseDigits zs + digitVal d) mod 10 = digitVal d"
    using rd by (simp_all add: divmod_unique [of _ 10 "parseDigits zs" "digitVal d"])
  ultimately have pe: "parseDigits xs = parseDigits zs" and ve: "digitVal c = digitVal d"
    using e by simp_all
  from ve dc have "c = d"
    by (metis digitChar_digitVal)
  moreover from snoc.IH [OF len az pe] have "xs = zs" .
  ultimately show ?case
    by (simp add: ys)
qed

lemma padStart_parseDigits:
  assumes "allDigits xs" "xs \<noteq> []"
  shows "padStart (parseDigits xs) (length xs) = xs"
proof -
  have k: "0 < length xs"
    using assms(2) by simp
  note p = padStart_digits [OF parseDigits_nonneg [OF assms(1)] parseDigits_bound [OF assms(1)] k]
  show ?thesis
    using p assms(1) by (intro parseDigits_inj) simp_all
qed

lemma allDigits_no_space: "allDigits xs \<Longrightarrow> CHR '' '' \<notin> set xs"
  by (induction xs) auto

section \<open>Writing and reading ISO timestamps\<close>

lemma isDigit_not_sign: "isDigit c \<Longrightarrow> c \<noteq> CHR ''+'' \<and> c \<noteq> CHR ''-''"
  by (auto simp add: isDigit_def)

lemma allDigits_hd: "allDigits xs \<Longrightarrow> xs \<noteq> [] \<Longrightarrow> isDigit (hd xs)"
  by (cases xs) simp_all

text \<open>\<open>fromISO\<close> on a string put together from digit fields of the right lengths.\<close>

lemma fromISO_fields:
  assumes n: "n = 4 \<or> n = 6"
    and pre: "pre = (if n = 6 then [sg] else [])" "sg = CHR ''+'' \<or> sg = CHR ''-''"
    and Y: "length Y = n" "allDigits Y"
    and M: "length M = 2" "allDigits M"
    and D: "length D = 2" "allDigits D"
    and H: "length H = 2" "allDigits H"
    and Mi: "length Mi = 2" "allDigits Mi"
    and S: "length S = 2" "allDigits S"
    and Ms: "length Ms = 3" "allDigits Ms"
    and obj: "obj = \<lparr> year = (if n = 6 \<and> sg = CHR ''-'' then - parseDigits Y else parseDigits Y),
                        month = parseDigits M, day = parseDigits D, hour = parseDigits H,
                        minute = parseDigits Mi, second = parseDigits S,
                        millisecond = parseDigits Ms \<rparr>"
    and valid: "\<not> hasInvalidGregorianData obj" "\<not> hasInvalidTimeData obj"
  shows "fromISO (pre @ Y @ CHR ''-'' # M @ CHR ''-'' # D @ CHR ''T'' # H @ CHR '':'' # Mi
            @ CHR '':'' # S @ CHR ''.'' # Ms @ [CHR ''Z''])
         = Some (objToLocalTS obj, 0)"
proof -
  let ?s = "Y @ CHR ''-'' # M @ CHR ''-'' # D @ CHR ''T'' # H @ CHR '':'' # Mi
            @ CHR '':'' # S @ CHR ''.'' # Ms @ [CHR ''Z'']"
  have ls: "length ?s = n + 20"
    using Y M D H Mi S Ms by simp
  have f: "take n ?s = Y" "?s ! n = CHR ''-''"
      "take 2 (drop (n + 1) ?s) = M" "?s ! (n + 3) = CHR ''-''"
      "take 2 (drop (n + 4) ?s) = D" "?s ! (n + 6) = CHR ''T''"
      "take 2 (drop (n + 7) ?s) = H" "?s ! (n + 9) = CHR '':''"
      "take 2 (drop (n + 10) ?s) = Mi" "?s ! (n + 12) = CHR '':''"
      "take 2 (drop (n + 13) ?s) = S" "?s ! (n + 15) = CHR ''.''"
      "take 3 (drop (n + 16) ?s) = Ms" "?s ! (n + 19) = CHR ''Z''"
    using Y(1) M(1) D(1) H(1) Mi(1) S(1) Ms(1) by (simp_all add: nth_append)
  have Yne: "Y \<noteq> []"
    using n Y(1) by auto
  show ?thesis
  proof (cases "n = 6")
    case True
    then have t: "pre @ ?s = sg # ?s"
      by (simp add: pre)
    show ?thesis
      unfolding t fromISO_def
      using True pre(2) ls f Y(2) M(2) D(2) H(2) Mi(2) S(2) Ms(2) obj valid
      by (auto simp add: Let_def)
  next
    case False
    with n have n4: "n = 4" by simp
    then have t: "pre @ ?s = ?s"
      by (simp add: pre)
    have "isDigit (hd ?s)"
      using Yne Y(2) by (simp add: allDigits_hd)
    then have hd: "hd ?s \<noteq> CHR ''+''" "hd ?s \<noteq> CHR ''-''"
      using isDigit_not_sign by blast+
    have ne: "?s \<noteq> []"
      by simp
    show ?thesis
      unfolding t fromISO_def
      using n4 hd ne ls f Y(2) M(2) D(2) H(2) Mi(2) S(2) Ms(2) obj valid
      by (simp add: Let_def)
  qed
qed

lemma daysInMonth_le_31:
  assumes "1 \<le> m" "m \<le> 12"
  shows "daysInMonth y m \<le> 31"
  using assms
  by (cases m rule: month_cases) (simp_all add: daysInMonth_def)

lemma fromISO_toISO:
  assumes yr: "- 999999 \<le> year (tsToObj ts 0)" "year (tsToObj ts 0) \<le> 999999"
  shows "fromISO (toISO (ts, 0)) = Some (ts, 0)"
proof -
  define c where "c = tsToObj ts 0"
  have yc: "- 999999 \<le> year c" "year c \<le> 999999"
    using yr by (simp_all add: c_def)
  have g: "\<not> hasInvalidGregorianData c" and t: "\<not> hasInvalidTimeData c"
    unfolding c_def by (rule tsToObj_fields_valid)+
  from g have mo: "1 \<le> month c" "month c \<le> 12" and da: "1 \<le> day c" "day c \<le> daysInMonth (year c) (month c)"
    by (simp_all add: hasInvalidGregorianData_def)
  from da(2) daysInMonth_le_31 [OF mo] have da31: "day c \<le> 31"
    by (rule order_trans)
  from t have ti: "0 \<le> hour c" "hour c \<le> 24" "0 \<le> minute c" "minute c \<le> 59"
      "0 \<le> second c" "second c \<le> 59" "0 \<le> millisecond c" "millisecond c \<le> 999"
    by (auto simp add: hasInvalidTimeData_def Let_def)
  note pM = padStart_digits [of "month c" 2]
  note pD = padStart_digits [of "day c" 2]
  note pH = padStart_digits [of "hour c" 2]
  note pMi = padStart_digits [of "minute c" 2]
  note pS = padStart_digits [of "second c" 2]
  note pMs = padStart_digits [of "millisecond c" 3]
  have M: "length (padStart (month c) 2) = 2" "allDigits (padStart (month c) 2)"
      "parseDigits (padStart (month c) 2) = month c"
    using mo by (simp_all add: pM)
  have D: "length (padStart (day c) 2) = 2" "allDigits (padStart (day c) 2)"
      "parseDigits (padStart (day c) 2) = day c"
    using da(1) da31 by (simp_all add: pD)
  have H: "length (padStart (hour c) 2) = 2" "allDigits (padStart (hour c) 2)"
      "parseDigits (padStart (hour c) 2) = hour c"
    using ti by (simp_all add: pH)
  have Mi: "length (padStart (minute c) 2) = 2" "allDigits (padStart (minute c) 2)"
      "parseDigits (padStart (minute c) 2) = minute c"
    using ti by (simp_all add: pMi)
  have S: "length (padStart (second c) 2) = 2" "allDigits (padStart (second c) 2)"
      "parseDigits (padStart (second c) 2) = second c"
    using ti by (simp_all add: pS)
  have Ms: "length (padStart (millisecond c) 3) = 3" "allDigits (padStart (millisecond c) 3)"
      "parseDigits (padStart (millisecond c) 3) = millisecond c"
    using ti by (simp_all add: pMs)
  have ts: "objToLocalTS c = ts"
    by (simp add: c_def objToLocalTS_tsToObj)
  consider (short) "0 \<le> year c" "year c \<le> 9999" | (plus) "9999 < year c" | (minus) "year c < 0"
    by linarith
  then have "fromISO (toISODate c @ CHR ''T'' # toISOTime c) = Some (objToLocalTS c, 0)"
  proof cases
    case short
    note pY = padStart_digits [of "year c" 4]
    have Y: "length (padStart (year c) 4) = 4" "allDigits (padStart (year c) 4)"
        "parseDigits (padStart (year c) 4) = year c"
      using short by (simp_all add: pY)
    have s: "toISODate c @ CHR ''T'' # toISOTime c
        = [] @ padStart (year c) 4 @ CHR ''-'' # padStart (month c) 2 @ CHR ''-'' # padStart (day c) 2
            @ CHR ''T'' # padStart (hour c) 2 @ CHR '':'' # padStart (minute c) 2
            @ CHR '':'' # padStart (second c) 2 @ CHR ''.'' # padStart (millisecond c) 3 @ [CHR ''Z'']"
      using short by (simp add: toISODate_def toISOTime_def Let_def)
    show ?thesis
      unfolding s
      by (rule fromISO_fields [where n = 4 and sg = "CHR ''+''"])
         (simp_all add: Y M D H Mi S Ms g t)
  next
    case plus
    note pY = padStart_digits [of "year c" 6]
    have Y: "length (padStart (year c) 6) = 6" "allDigits (padStart (year c) 6)"
        "parseDigits (padStart (year c) 6) = year c"
      using plus yc by (simp_all add: pY)
    have s: "toISODate c @ CHR ''T'' # toISOTime c
        = [CHR ''+''] @ padStart (year c) 6 @ CHR ''-'' # padStart (month c) 2 @ CHR ''-'' # padStart (day c) 2
            @ CHR ''T'' # padStart (hour c) 2 @ CHR '':'' # padStart (minute c) 2
            @ CHR '':'' # padStart (second c) 2 @ CHR ''.'' # padStart (millisecond c) 3 @ [CHR ''Z'']"
      using plus by (simp add: toISODate_def toISOTime_def Let_def)
    show ?thesis
      unfolding s
      by (rule fromISO_fields [where n = 6 and sg = "CHR ''+''"])
         (simp_all add: Y M D H Mi S Ms g t)
  next
    case minus
    note pY = padStart_digits [of "- year c" 6]
    have Y: "length (padStart (- year c) 6) = 6" "allDigits (padStart (- year c) 6)"
        "parseDigits (padStart (- year c) 6) = - year c"
      using minus yc by (simp_all add: pY)
    have neg: "padStart (year c) 6 = CHR ''-'' # padStart (- year c) 6"
      using minus by (simp add: padStart_def)
    have s: "toISODate c @ CHR ''T'' # toISOTime c
        = [CHR ''-''] @ padStart (- year c) 6 @ CHR ''-'' # padStart (month c) 2 @ CHR ''-'' # padStart (day c) 2
            @ CHR ''T'' # padStart (hour c) 2 @ CHR '':'' # padStart (minute c) 2
            @ CHR '':'' # padStart (second c) 2 @ CHR ''.'' # padStart (millisecond c) 3 @ [CHR ''Z'']"
      using minus by (simp add: toISODate_def toISOTime_def Let_def neg)
    show ?thesis
      unfolding s
      by (rule fromISO_fields [where n = 6 and sg = "CHR ''-''"])
         (simp_all add: Y M D H Mi S Ms g t)
  qed
  then show ?thesis
    by (simp add: toISO_def Let_def c_def [symmetric] ts)
qed

lemma toISO_not_empty: "toISO dt \<noteq> []"
  by (simp add: toISO_def Let_def)

text \<open>Bounds on the year of a day number.\<close>

lemma yearFromDay_bounds:
  assumes "dayFromYear lo \<le> n" "n < dayFromYear (hi + 1)"
  shows "lo \<le> yearFromDay n" and "yearFromDay n \<le> hi"
proof -
  have br: "dayFromYear (yearFromDay n) \<le> n" "n < dayFromYear (yearFromDay n + 1)"
    using yearFromDay_bracket [of n] by simp_all
  show "lo \<le> yearFromDay n"
  proof (rule ccontr)
    assume "\<not> lo \<le> yearFromDay n"
    then have "yearFromDay n + 1 \<le> lo" by simp
    from dayFromYear_mono [OF this] br(2) assms(1) show False by simp
  qed
  show "yearFromDay n \<le> hi"
  proof (rule ccontr)
    assume "\<not> yearFromDay n \<le> hi"
    then have "hi + 1 \<le> yearFromDay n" by simp
    from dayFromYear_mono [OF this] br(1) assms(2) show False by simp
  qed
qed

text \<open>
  \<open>fixOffset\<close> in a zone that is on one of two offsets around the local time and at
  the time of the call: when the local time occurs at all, the result is an instant
  that reads as this local time.
\<close>

lemma fixOffset_two_offsets:
  assumes near: "\<And>t. \<bar>t - L\<bar> \<le> msPerDay \<Longrightarrow> tz t = a \<or> tz t = b"
    and ab: "\<bar>a\<bar> \<le> 1440" "\<bar>b\<bar> \<le> 1440"
    and o1: "o1 = a \<or> o1 = b"
    and ex: "tz (L - a * 60 * 1000) = a \<or> tz (L - b * 60 * 1000) = b"
  shows "\<exists>u c. fixOffset L o1 tz = (u, c) \<and> tz u = c \<and> u = L - c * 60 * 1000 \<and> (c = a \<or> c = b)"
proof -
  have na: "\<bar>(L - a * 60 * 1000) - L\<bar> \<le> msPerDay" and nb: "\<bar>(L - b * 60 * 1000) - L\<bar> \<le> msPerDay"
    using ab by (simp_all add: msPerDay_def)
  have ta: "tz (L - a * 60 * 1000) = a \<or> tz (L - a * 60 * 1000) = b"
    and tb: "tz (L - b * 60 * 1000) = a \<or> tz (L - b * 60 * 1000) = b"
    using near [OF na] near [OF nb] by simp_all
  have e: "\<And>x y. L - x * 60 * 1000 - (y - x) * 60 * 1000 = L - y * 60 * 1000"
    by (simp add: algebra_simps)
  from o1 show ?thesis
  proof
    assume "o1 = a"
    then show ?thesis
      using ta tb ex by (auto simp add: fixOffset_def Let_def e)
  next
    assume "o1 = b"
    then show ?thesis
      using ta tb ex by (auto simp add: fixOffset_def Let_def e)
  qed
qed

section \<open>Wall-clock text, resolved and projected back\<close>

text \<open>A text of sixteen characters, cut at the positions of the format.\<close>

lemma text16_fields:
  assumes "length str = 16"
  shows "str = take 4 str @ str ! 4 # take 2 (drop 5 str) @ str ! 7 # take 2 (drop 8 str)
           @ str ! 10 # take 2 (drop 11 str) @ str ! 13 # take 2 (drop 14 str)"
proof -
  have a: "str = take 4 str @ str ! 4 # drop 5 str"
    using assms id_take_nth_drop [of 4 str] by simp
  have b: "drop 5 str = take 2 (drop 5 str) @ str ! 7 # drop 8 str"
    using assms id_take_nth_drop [of 2 "drop 5 str"] by simp
  have c: "drop 8 str = take 2 (drop 8 str) @ str ! 10 # drop 11 str"
    using assms id_take_nth_drop [of 2 "drop 8 str"] by simp
  have d: "drop 11 str = take 2 (drop 11 str) @ str ! 13 # drop 14 str"
    using assms id_take_nth_drop [of 2 "drop 11 str"] by simp
  have e: "drop 14 str = take 2 (drop 14 str)"
    using assms by simp
  show ?thesis
    using a b c d e by metis
qed

text \<open>What parses is what the formatter writes: the fields, formatted, give the string back.\<close>

lemma parseFromTokens_format:
  assumes p: "parseFromTokens (d @ '' '' @ t) = Some obj"
  shows "padStart (year obj) 4 @ [CHR ''-''] @ padStart (month obj) 2 @ [CHR ''-'']
           @ padStart (day obj) 2 = d"
    and "padStart (hour obj) 2 @ [CHR '':''] @ padStart (minute obj) 2 = t"
    and "second obj = 0" and "millisecond obj = 0"
    and "0 \<le> year obj" and "year obj \<le> 9999"
proof -
  define str where "str = d @ '' '' @ t"
  define Y M D H Mi where "Y = take 4 str" and "M = take 2 (drop 5 str)"
    and "D = take 2 (drop 8 str)" and "H = take 2 (drop 11 str)" and "Mi = take 2 (drop 14 str)"
  from p have c: "length str = 16" "allDigits Y" "str ! 4 = CHR ''-''" "allDigits M"
      "str ! 7 = CHR ''-''" "allDigits D" "str ! 10 = CHR '' ''" "allDigits H"
      "str ! 13 = CHR '':''" "allDigits Mi"
    and obj: "obj = \<lparr> year = parseDigits Y, month = parseDigits M, day = parseDigits D,
                hour = parseDigits H, minute = parseDigits Mi, second = 0, millisecond = 0 \<rparr>"
    unfolding str_def [symmetric] parseFromTokens_def Y_def M_def D_def H_def Mi_def
    by (simp_all split: if_splits)
  have len: "length Y = 4" "length M = 2" "length D = 2" "length H = 2" "length Mi = 2"
    using c(1) by (simp_all add: Y_def M_def D_def H_def Mi_def)
  have ne: "Y \<noteq> []" "M \<noteq> []" "D \<noteq> []" "H \<noteq> []" "Mi \<noteq> []"
    using len by auto
  have f: "padStart (parseDigits Y) 4 = Y" "padStart (parseDigits M) 2 = M"
      "padStart (parseDigits D) 2 = D" "padStart (parseDigits H) 2 = H"
      "padStart (parseDigits Mi) 2 = Mi"
    using padStart_parseDigits [OF c(2) ne(1)] padStart_parseDigits [OF c(4) ne(2)]
      padStart_parseDigits [OF c(6) ne(3)] padStart_parseDigits [OF c(8) ne(4)]
      padStart_parseDigits [OF c(10) ne(5)] len
    by simp_all
  have "str = Y @ CHR ''-'' # M @ CHR ''-'' # D @ CHR '' '' # H @ CHR '':'' # Mi"
    using text16_fields [OF c(1)] c(3,5,7,9) by (simp add: Y_def M_def D_def H_def Mi_def)
  then have s: "(Y @ CHR ''-'' # M @ CHR ''-'' # D) @ CHR '' '' # (H @ CHR '':'' # Mi) = d @ CHR '' '' # t"
    by (simp add: str_def)
  have n1: "CHR '' '' \<notin> set (Y @ CHR ''-'' # M @ CHR ''-'' # D)"
    and n2: "CHR '' '' \<notin> set (H @ CHR '':'' # Mi)"
    using c(2,4,6,8,10) by (simp_all add: allDigits_no_space)
  have "((Y @ CHR ''-'' # M @ CHR ''-'' # D) @ CHR '' '' # (H @ CHR '':'' # Mi) = d @ CHR '' '' # t)
      = (Y @ CHR ''-'' # M @ CHR ''-'' # D = d \<and> H @ CHR '':'' # Mi = t)"
    by (rule append_Cons_eq_iff [OF n1 n2])
  with s have dt: "Y @ CHR ''-'' # M @ CHR ''-'' # D = d" "H @ CHR '':'' # Mi = t"
    by blast+
  show "padStart (year obj) 4 @ [CHR ''-''] @ padStart (month obj) 2 @ [CHR ''-'']
           @ padStart (day obj) 2 = d"
    using dt(1) by (simp add: obj f)
  show "padStart (hour obj) 2 @ [CHR '':''] @ padStart (minute obj) 2 = t"
    using dt(2) by (simp add: obj f)
  show "second obj = 0" "millisecond obj = 0"
    by (simp_all add: obj)
  show "0 \<le> year obj"
    using parseDigits_nonneg [OF c(2)] by (simp add: obj)
  have "parseDigits Y < 10 ^ 4"
    using parseDigits_bound [OF c(2)] len(1) by simp
  then show "year obj \<le> 9999"
    by (simp add: obj)
qed

lemma year_near:
  assumes y: "0 \<le> year (tsToObj L 0)" "year (tsToObj L 0) \<le> 9999"
    and c: "\<bar>c\<bar> \<le> 1440"
  shows "- 999999 \<le> year (tsToObj (L - c * 60 * 1000) 0)"
    and "year (tsToObj (L - c * 60 * 1000) 0) \<le> 999999"
proof -
  define N where "N = L div msPerDay"
  define u where "u = L - c * 60 * 1000"
  define n where "n = u div msPerDay"
  have yN: "year (tsToObj L 0) = yearFromDay N"
    by (simp add: tsToObj_def Let_def N_def)
  have yn: "year (tsToObj u 0) = yearFromDay n"
    by (simp add: tsToObj_def Let_def n_def)
  have br: "dayFromYear (yearFromDay N) \<le> N" "N < dayFromYear (yearFromDay N + 1)"
    using yearFromDay_bracket [of N] by simp_all
  have "dayFromYear 0 \<le> dayFromYear (yearFromDay N)"
    using y(1) by (intro dayFromYear_mono) (simp add: yN)
  with br(1) have lo: "dayFromYear 0 \<le> N"
    by simp
  have "dayFromYear (yearFromDay N + 1) \<le> dayFromYear 10000"
    using y(2) by (intro dayFromYear_mono) (simp add: yN)
  with br(2) have hi: "N < dayFromYear 10000"
    by simp
  have pos: "0 < msPerDay"
    by (simp add: msPerDay_def)
  have ub: "L - msPerDay \<le> u" "u \<le> L + msPerDay"
    using c by (simp_all add: u_def msPerDay_def)
  have "(L - msPerDay) div msPerDay \<le> n"
    unfolding n_def using ub(1) pos by (rule zdiv_mono1)
  moreover have "(L - msPerDay) div msPerDay = N - 1"
    using div_add_self2 [of msPerDay "L - msPerDay"] pos by (simp add: N_def)
  ultimately have n1: "N - 1 \<le> n"
    by simp
  have "n \<le> (L + msPerDay) div msPerDay"
    unfolding n_def using ub(2) pos by (rule zdiv_mono1)
  moreover have "(L + msPerDay) div msPerDay = N + 1"
    using div_add_self2 [of msPerDay L] pos by (simp add: N_def)
  ultimately have n2: "n \<le> N + 1"
    by simp
  have "dayFromYear (- 1) < dayFromYear 0"
    using dayFromYear_less [of "- 1"] by simp
  with lo n1 have a: "dayFromYear (- 1) \<le> n"
    by simp
  have "dayFromYear 10000 < dayFromYear (10000 + 1)"
    by (rule dayFromYear_less)
  with hi n2 have b: "n < dayFromYear (10000 + 1)"
    by simp
  have "- 1 \<le> yearFromDay n" "yearFromDay n \<le> 10000"
    using yearFromDay_bounds [OF a b] by simp_all
  then have "- 999999 \<le> year (tsToObj u 0)" and "year (tsToObj u 0) \<le> 999999"
    by (simp_all add: yn)
  then show "- 999999 \<le> year (tsToObj (L - c * 60 * 1000) 0)"
    and "year (tsToObj (L - c * 60 * 1000) 0) \<le> 999999"
    unfolding u_def .
qed

text \<open>
  The round trip, given what \<open>fixOffset\<close> returned: an instant \<open>u\<close> that reads as the
  local time under the offset \<open>c\<close> in force at \<open>u\<close>.
\<close>

lemma roundtrip_resolved:
  assumes z: "db z = Some tz"
    and p: "parseFromTokens (d @ '' '' @ t) = Some obj"
    and g: "\<not> hasInvalidGregorianData obj" and tv: "\<not> hasInvalidTimeData obj"
    and h24: "hour obj \<noteq> 24"
    and fo: "fixOffset (objToLocalTS obj) (tz tsNow) tz = (u, c)"
    and u: "u = objToLocalTS obj - c * 60 * 1000" and tzu: "tz u = c" and c: "\<bar>c\<bar> \<le> 1440"
  shows "toUTCTimestamp db tsNow (Some d) (Some t) z = toISO (u, 0)"
    and "fromUTCTimestamp db (Some (toISO (u, 0))) z = [''dateISO'' \<mapsto> d, ''time'' \<mapsto> t]"
proof -
  note f = parseFromTokens_format [OF p]
  have ne: "d \<noteq> []" "t \<noteq> []"
    using f(1,2) by auto
  show "toUTCTimestamp db tsNow (Some d) (Some t) z = toISO (u, 0)"
    using toUTCTimestamp_resolved [where db = db and z = z and tz = tz and obj = obj
        and d = d and t = t and tsNow = tsNow] p z g tv ne fo
    by simp
  have proj: "tsToObj (objToLocalTS obj - c * 60 * 1000) c = obj" for c
    using g tv h24 by (rule tsToObj_objToLocalTS)
  have "tsToObj (objToLocalTS obj) 0 = obj"
    using proj [of 0] by simp
  then have y: "0 \<le> year (tsToObj (objToLocalTS obj) 0)" "year (tsToObj (objToLocalTS obj) 0) \<le> 9999"
    using f(5,6) by simp_all
  have iso: "fromISO (toISO (u, 0)) = Some (u, 0)"
    unfolding u by (rule fromISO_toISO) (rule year_near [OF y c])+
  have sz: "setZone db (fromISO (toISO (u, 0))) z = Some (u, c)"
    by (simp add: iso setZone_def z tzu)
  have obj: "tsToObj u c = obj"
    unfolding u by (rule proj)
  have "toFormat_yyyyMMdd (Some (u, c)) = d" "toFormat_HHmm (Some (u, c)) = t"
    using f(1,2) by (simp_all add: toFormat_yyyyMMdd_def toFormat_HHmm_def obj)
  then show "fromUTCTimestamp db (Some (toISO (u, 0))) z = [''dateISO'' \<mapsto> d, ''time'' \<mapsto> t]"
    by (simp add: fromUTCTimestamp_def toISO_not_empty sz)
qed

lemma roundtrip_exact:
  assumes z: "db timezone = Some tz"
    and p: "parseFromTokens (dateISO @ '' '' @ time) = Some obj"
    and g: "\<not> hasInvalidGregorianData obj" and tv: "\<not> hasInvalidTimeData obj"
    and h24: "hour obj \<noteq> 24"
    and near: "\<forall>t. \<bar>t - objToLocalTS obj\<bar> \<le> msPerDay \<longrightarrow> tz t = a \<or> tz t = b"
    and ab: "\<bar>a\<bar> \<le> 1440" "\<bar>b\<bar> \<le> 1440"
    and now: "tz tsNow = a \<or> tz tsNow = b"
    and ex: "tz (objToLocalTS obj - a * 60 * 1000) = a \<or> tz (objToLocalTS obj - b * 60 * 1000) = b"
  shows "fromUTCTimestamp db (Some (toUTCTimestamp db tsNow (Some dateISO) (Some time) timezone)) timezone
           = [''dateISO'' \<mapsto> dateISO, ''time'' \<mapsto> time]"
proof -
  from near have n: "\<And>t. \<bar>t - objToLocalTS obj\<bar> \<le> msPerDay \<Longrightarrow> tz t = a \<or> tz t = b"
    by blast
  from fixOffset_two_offsets [OF n ab now ex]
  obtain u c where fo: "fixOffset (objToLocalTS obj) (tz tsNow) tz = (u, c)"
    and tzu: "tz u = c" and u: "u = objToLocalTS obj - c * 60 * 1000" and c: "c = a \<or> c = b"
    by blast
  from c ab have cb: "\<bar>c\<bar> \<le> 1440"
    by auto
  note r = roundtrip_resolved [where db = db and z = timezone, OF z p g tv h24 fo u tzu cb]
  show ?thesis
    by (simp only: r)
qed

lemma toUTCTimestamp_same_offset:
  assumes "\<And>tz. db z = Some tz \<Longrightarrow> tz n' = tz n"
  shows "toUTCTimestamp db n' d t z = toUTCTimestamp db n d t z"
  using assms
  by (auto simp add: toUTCTimestamp_def fromFormat_def fromObject_def split: option.splits)

lemma nullish_simps [simp]: "nullish None b = b" "nullish (Some s) b = Some s"
  by (simp_all add: nullish_def)

lemma map_add_twice: "(m ++ ch) ++ ch = m ++ ch"
  by (rule ext) (simp add: map_add_def split: option.splits)

lemma Task_update_changes_edit:
  assumes "c ''startDateISO'' \<noteq> None \<or> c ''startTime'' \<noteq> None \<or> c ''timeZone'' \<noteq> None"
  shows "Task_update_changes db n m c
     = c(''startTimestampUTC'' \<mapsto>
          (if truthy (nullish (c ''startDateISO'') (m ''startDateISO''))
               \<and> truthy (nullish (c ''startTime'') (m ''startTime''))
           then toUTCTimestamp db n (nullish (c ''startDateISO'') (m ''startDateISO''))
                  (nullish (c ''startTime'') (m ''startTime''))
                  (nullish (c ''timeZone'') (m ''timeZone''))
           else []))"
  using assms by (auto simp add: Task_update_changes_def Let_def)

lemma Task_update_changes_stamp:
  assumes "c ''startDateISO'' = None" "c ''startTime'' = None" "c ''timeZone'' = None"
    and "truthy (c ''startTimestampUTC'')"
  shows "Task_update_changes db n m c
     = c(''startDateISO'' := fromUTCTimestamp db (c ''startTimestampUTC'') (m ''timeZone'') ''dateISO'',
         ''startTime'' := fromUTCTimestamp db (c ''startTimestampUTC'') (m ''timeZone'') ''time'')"
  using assms by (simp add: Task_update_changes_def Let_def)

lemma Task_update_changes_again:
  assumes "\<And>tz. db (nullish (c ''timeZone'') (m ''timeZone'')) = Some tz \<Longrightarrow> tz n' = tz n"
  shows "Task_update_changes db n' (m ++ Task_update_changes db n m c) c = Task_update_changes db n m c"
proof (cases "c ''startDateISO'' \<noteq> None \<or> c ''startTime'' \<noteq> None \<or> c ''timeZone'' \<noteq> None")
  case True
  define d t z where "d = nullish (c ''startDateISO'') (m ''startDateISO'')"
    and "t = nullish (c ''startTime'') (m ''startTime'')"
    and "z = nullish (c ''timeZone'') (m ''timeZone'')"
  define X where "X = (if truthy d \<and> truthy t then toUTCTimestamp db n d t z else [])"
  have ch: "Task_update_changes db n m c = c(''startTimestampUTC'' \<mapsto> X)"
    unfolding Task_update_changes_edit [OF True] d_def t_def z_def X_def ..
  have m': "nullish (c ''startDateISO'') ((m ++ c(''startTimestampUTC'' \<mapsto> X)) ''startDateISO'') = d"
    "nullish (c ''startTime'') ((m ++ c(''startTimestampUTC'' \<mapsto> X)) ''startTime'') = t"
    "nullish (c ''timeZone'') ((m ++ c(''startTimestampUTC'' \<mapsto> X)) ''timeZone'') = z"
    by (simp_all add: d_def t_def z_def map_add_def nullish_def split: option.splits)
  have X': "(if truthy d \<and> truthy t then toUTCTimestamp db n' d t z else []) = X"
    using toUTCTimestamp_same_offset [of db z n' n d t] assms by (simp add: X_def z_def)
  have "Task_update_changes db n' (m ++ c(''startTimestampUTC'' \<mapsto> X)) c = c(''startTimestampUTC'' \<mapsto> X)"
    unfolding Task_update_changes_edit [OF True] m' X' ..
  then show ?thesis
    by (simp only: ch)
next
  case False
  then have nn: "c ''startDateISO'' = None" "c ''startTime'' = None" "c ''timeZone'' = None"
    by simp_all
  show ?thesis
  proof (cases "truthy (c ''startTimestampUTC'')")
    case True
    define r where "r = fromUTCTimestamp db (c ''startTimestampUTC'') (m ''timeZone'')"
    have ch: "Task_update_changes db n m c = c(''startDateISO'' := r ''dateISO'', ''startTime'' := r ''time'')"
      unfolding Task_update_changes_stamp [OF nn True] r_def ..
    have tz: "(m ++ c(''startDateISO'' := A, ''startTime'' := B)) ''timeZone'' = m ''timeZone''" for A B
      using nn by (simp add: map_add_def)
    have "Task_update_changes db n' (m ++ c(''startDateISO'' := r ''dateISO'', ''startTime'' := r ''time'')) c
        = c(''startDateISO'' := fromUTCTimestamp db (c ''startTimestampUTC'')
               ((m ++ c(''startDateISO'' := r ''dateISO'', ''startTime'' := r ''time'')) ''timeZone'') ''dateISO'',
            ''startTime'' := fromUTCTimestamp db (c ''startTimestampUTC'')
               ((m ++ c(''startDateISO'' := r ''dateISO'', ''startTime'' := r ''time'')) ''timeZone'') ''time'')"
      by (rule Task_update_changes_stamp [OF nn True])
    then have "Task_update_changes db n' (m ++ c(''startDateISO'' := r ''dateISO'', ''startTime'' := r ''time'')) c
        = c(''startDateISO'' := r ''dateISO'', ''startTime'' := r ''time'')"
      by (simp only: tz r_def)
    then show ?thesis
      by (simp only: ch)
  next
    case False
    then show ?thesis
      using nn by (simp add: Task_update_changes_def Let_def)
  qed
qed

lemma map_add_nullish: "(m ++ c) k = nullish (c k) (m k)"
  by (simp add: map_add_def nullish_def split: option.splits)

lemma New_York_near:
  "\<forall>t. \<bar>t - L\<bar> \<le> msPerDay \<longrightarrow> America_New_York t = - 240 \<or> America_New_York t = - 300"
  by (simp add: America_New_York_def)

lemma occurs_oct3:
  "America_New_York (objToLocalTS \<lparr> year = 2025, month = 10, day = 3, hour = 14, minute = 30, second = 0, millisecond = 0 \<rparr> - (- 240) * 60 * 1000) = - 240"
  by code_simp

lemma fromUTCTimestamp_keys:
  obtains u v where "fromUTCTimestamp db ts z ''dateISO'' = Some u"
    and "fromUTCTimestamp db ts z ''time'' = Some v"
  by (cases "truthy ts") (simp_all add: fromUTCTimestamp_def Let_def)

lemma Apia_0130_once:
  "(u + Pacific_Apia u * 60 * 1000 = 1285464600000) = (u = 1285500600000)"
  by (auto simp add: Pacific_Apia_def)

lemma Apia_excerpt: "tzdbExcerpt (Some ''Pacific/Apia'') = Some Pacific_Apia"
  by (simp add: tzdbExcerpt_def)

lemma parse_apia: "parseFromTokens (''2010-09-26'' @ '' '' @ ''01:30'')
   = Some \<lparr> year = 2010, month = 9, day = 26, hour = 1, minute = 30, second = 0, millisecond = 0 \<rparr>"
  by code_simp

lemma valid_apia:
  "\<not> hasInvalidGregorianData \<lparr> year = 2010, month = 9, day = 26, hour = 1, minute = 30, second = 0, millisecond = 0 \<rparr>"
  "\<not> hasInvalidTimeData \<lparr> year = 2010, month = 9, day = 26, hour = 1, minute = 30, second = 0, millisecond = 0 \<rparr>"
  by code_simp+

lemma iso_apia:
  "toISO (fst (fixOffset (objToLocalTS \<lparr> year = 2010, month = 9, day = 26, hour = 1, minute = 30, second = 0, millisecond = 0 \<rparr>) 780 Pacific_Apia), 0) = ''2010-09-26T12:30:00.000Z''"
  by code_simp

lemma project_apia:
  "fromUTCTimestamp tzdbExcerpt (Some ''2010-09-26T12:30:00.000Z'') (Some ''Pacific/Apia'') ''dateISO'' = Some ''2010-09-26''"
  "fromUTCTimestamp tzdbExcerpt (Some ''2010-09-26T12:30:00.000Z'') (Some ''Pacific/Apia'') ''time'' = Some ''02:30''"
  "fromUTCTimestamp tzdbExcerpt (Some ''2010-09-26T11:30:00.000Z'') (Some ''Pacific/Apia'') ''dateISO'' = Some ''2010-09-26''"
  "fromUTCTimestamp tzdbExcerpt (Some ''2010-09-26T11:30:00.000Z'') (Some ''Pacific/Apia'') ''time'' = Some ''01:30''"
  by code_simp+

lemma project_mar9:
  "fromUTCTimestamp tzdbExcerpt (Some ''2025-03-09T07:30:00.000Z'') (Some ''America/New_York'') ''dateISO'' = Some ''2025-03-09''"
  "fromUTCTimestamp tzdbExcerpt (Some ''2025-03-09T07:30:00.000Z'') (Some ''America/New_York'') ''time'' = Some ''03:30''"
  by code_simp+

section \<open>The round trip\<close>

text \<open>
  Claim C4 does not hold of the code. 01:30 on 2010-09-26 in Apia is a valid wall-clock
  value in no gap and no overlap: daylight time had begun half an hour before, the
  value is the instant 2010-09-26T11:30:00Z and no other (\<open>Apia_0130_once\<close>), and
  \<open>fromUTCTimestamp\<close> reads that instant as 01:30 on 2010-09-26. Called at any time
  since 2011-12-30T10:00:00Z, when the zone moved to UTC+13, \<open>toUTCTimestamp\<close>
  returns \<open>2010-09-26T12:30:00.000Z\<close> for it, an hour late, and \<open>fromUTCTimestamp\<close>
  reads the result back as 02:30. The search of the library starts from the zone's
  offset at the time of the call (UTC+13) and corrects it once; with neither of the two
  offsets around the value as its start it ends in the branch meant for a gap.
\<close>

theorem toUTCTimestamp_Apia_2010_shifted:
  assumes "1325239200000 \<le> tsNow"
  shows "toUTCTimestamp tzdbExcerpt tsNow (Some ''2010-09-26'') (Some ''01:30'') (Some ''Pacific/Apia'')
           = ''2010-09-26T12:30:00.000Z''
     \<and> fromUTCTimestamp tzdbExcerpt
          (Some (toUTCTimestamp tzdbExcerpt tsNow (Some ''2010-09-26'') (Some ''01:30'') (Some ''Pacific/Apia'')))
          (Some ''Pacific/Apia'') ''dateISO'' = Some ''2010-09-26''
     \<and> fromUTCTimestamp tzdbExcerpt
          (Some (toUTCTimestamp tzdbExcerpt tsNow (Some ''2010-09-26'') (Some ''01:30'') (Some ''Pacific/Apia'')))
          (Some ''Pacific/Apia'') ''time'' = Some ''02:30''
     \<and> fromUTCTimestamp tzdbExcerpt (Some ''2010-09-26T11:30:00.000Z'') (Some ''Pacific/Apia'') ''dateISO''
           = Some ''2010-09-26''
     \<and> fromUTCTimestamp tzdbExcerpt (Some ''2010-09-26T11:30:00.000Z'') (Some ''Pacific/Apia'') ''time''
           = Some ''01:30''"
proof -
  have now: "Pacific_Apia tsNow = 780"
    using assms by (simp add: Pacific_Apia_def)
  have "toUTCTimestamp tzdbExcerpt tsNow (Some ''2010-09-26'') (Some ''01:30'') (Some ''Pacific/Apia'')
      = toISO (fst (fixOffset (objToLocalTS \<lparr> year = 2010, month = 9, day = 26, hour = 1, minute = 30, second = 0, millisecond = 0 \<rparr>) (Pacific_Apia tsNow) Pacific_Apia), 0)"
    using parse_apia Apia_excerpt valid_apia
    by (intro toUTCTimestamp_resolved) simp_all
  then have ts: "toUTCTimestamp tzdbExcerpt tsNow (Some ''2010-09-26'') (Some ''01:30'') (Some ''Pacific/Apia'')
      = ''2010-09-26T12:30:00.000Z''"
    using now iso_apia by simp
  show ?thesis
    unfolding ts using project_apia by simp
qed

text \<open>The call made on 2026-11-03T12:00:00Z.\<close>

theorem toUTCTimestamp_Apia_2010_shifted_witness:
  "toUTCTimestamp tzdbExcerpt 1793707200000 (Some ''2010-09-26'') (Some ''01:30'') (Some ''Pacific/Apia'')
     = ''2010-09-26T12:30:00.000Z''
   \<and> fromUTCTimestamp tzdbExcerpt
        (Some (toUTCTimestamp tzdbExcerpt 1793707200000 (Some ''2010-09-26'') (Some ''01:30'') (Some ''Pacific/Apia'')))
        (Some ''Pacific/Apia'') ''time'' = Some ''02:30''
   \<and> fromUTCTimestamp tzdbExcerpt (Some ''2010-09-26T11:30:00.000Z'') (Some ''Pacific/Apia'') ''time''
        = Some ''01:30''"
proof -
  have "1325239200000 \<le> (1793707200000 :: int)"
    by simp
  from toUTCTimestamp_Apia_2010_shifted [OF this] show ?thesis
    by blast
qed

text \<open>
  Where the search starts from one of the offsets around the value, the round trip
  holds. Let \<open>dateISO\<close> and \<open>time\<close> be a well-formed, valid wall-clock value with an
  hour from 00 to 23, and let the zone be on one of two offsets \<open>a\<close> and \<open>b\<close> (each
  at most a day) within a day around that value and at the time of the call. If the
  value occurs in the zone, at offset \<open>a\<close> or at offset \<open>b\<close> (it is not in a gap; a
  value in an overlap occurs twice and is covered), then converting it with
  \<open>toUTCTimestamp\<close> and back with \<open>fromUTCTimestamp\<close> gives exactly \<open>dateISO\<close> and
  \<open>time\<close>.
\<close>

lemma round_trip_two_offsets:
  assumes "db timezone = Some tz"
    and "parseFromTokens (dateISO @ '' '' @ time) = Some obj"
    and "\<not> hasInvalidGregorianData obj" and "\<not> hasInvalidTimeData obj"
    and "hour obj \<noteq> 24"
    and "\<forall>t. \<bar>t - objToLocalTS obj\<bar> \<le> msPerDay \<longrightarrow> tz t = a \<or> tz t = b"
    and "\<bar>a\<bar> \<le> 1440" and "\<bar>b\<bar> \<le> 1440"
    and "tz tsNow = a \<or> tz tsNow = b"
    and "tz (objToLocalTS obj - a * 60 * 1000) = a \<or> tz (objToLocalTS obj - b * 60 * 1000) = b"
  shows "fromUTCTimestamp db (Some (toUTCTimestamp db tsNow (Some dateISO) (Some time) timezone)) timezone
           = [''dateISO'' \<mapsto> dateISO, ''time'' \<mapsto> time]"
  using assms by (rule roundtrip_exact)

text \<open>
  These conditions hold for 14:30 on 2025-10-03 in New York, with the call made on
  2025-12-01T12:00:00Z, during standard time.
\<close>

lemma round_trip_two_offsets_oct3:
  "fromUTCTimestamp tzdbExcerpt
     (Some (toUTCTimestamp tzdbExcerpt 1764590400000 (Some ''2025-10-03'') (Some ''14:30'') (Some ''America/New_York'')))
     (Some ''America/New_York'')
   = [''dateISO'' \<mapsto> ''2025-10-03'', ''time'' \<mapsto> ''14:30'']"
proof -
  have h: "hour \<lparr> year = 2025, month = 10, day = 3, hour = 14, minute = 30, second = 0, millisecond = 0 \<rparr> \<noteq> 24"
    by simp
  have ab: "\<bar>- 240 :: int\<bar> \<le> 1440" "\<bar>- 300 :: int\<bar> \<le> 1440"
    by simp_all
  have oc: "America_New_York (objToLocalTS \<lparr> year = 2025, month = 10, day = 3, hour = 14, minute = 30, second = 0, millisecond = 0 \<rparr> - (- 240) * 60 * 1000) = - 240
     \<or> America_New_York (objToLocalTS \<lparr> year = 2025, month = 10, day = 3, hour = 14, minute = 30, second = 0, millisecond = 0 \<rparr> - (- 300) * 60 * 1000) = - 300"
    using occurs_oct3 by (rule disjI1)
  show ?thesis
    by (rule round_trip_two_offsets [where db = tzdbExcerpt and timezone = "Some ''America/New_York''"
          and tz = America_New_York and a = "- 240" and b = "- 300",
          OF New_York_excerpt parse_oct3 valid_oct3 h New_York_near ab New_York_offsets oc])
qed

section \<open>The dual write and the projection of the timestamp\<close>

text \<open>
  Claim C3 does not hold of the code. Write I1 for: if the task has a
  \<open>startTimestampUTC\<close>, then \<open>fromUTCTimestamp\<close> of it in the task's \<open>timeZone\<close>
  gives the task's \<open>startDateISO\<close> and \<open>startTime\<close>. 02:30 on 2025-03-09 is in the
  spring-forward gap of New York. An update that sets this date and time on a New York
  task, and a creation with this date and time, compute the timestamp
  \<open>2025-03-09T07:30:00.000Z\<close> from the wall-clock fields and store the fields as
  entered, whenever they run: the stored \<open>startTime\<close> is 02:30, and the projection of
  the stored timestamp is 03:30. Only the branch for a timestamp supplied alone
  recomputes the cached fields from the timestamp.
\<close>

theorem dual_write_gap_stores_entered_time:
  "(let M = Task_update tzdbExcerpt tsNow
              [''startTimestampUTC'' \<mapsto> [], ''startDateISO'' \<mapsto> [], ''startTime'' \<mapsto> [],
               ''timeZone'' \<mapsto> ''America/New_York'']
              [''startDateISO'' \<mapsto> ''2025-03-09'', ''startTime'' \<mapsto> ''02:30''];
        N = Task_create tzdbExcerpt tsNow
              [''startTimestampUTC'' \<mapsto> [], ''startDateISO'' \<mapsto> ''2025-03-09'', ''startTime'' \<mapsto> ''02:30'',
               ''timeZone'' \<mapsto> ''America/New_York'']
    in M ''startTimestampUTC'' = Some ''2025-03-09T07:30:00.000Z''
       \<and> M ''startDateISO'' = Some ''2025-03-09'' \<and> M ''startTime'' = Some ''02:30''
       \<and> fromUTCTimestamp tzdbExcerpt (M ''startTimestampUTC'') (M ''timeZone'') ''dateISO'' = Some ''2025-03-09''
       \<and> fromUTCTimestamp tzdbExcerpt (M ''startTimestampUTC'') (M ''timeZone'') ''time'' = Some ''03:30''
       \<and> N ''startTimestampUTC'' = Some ''2025-03-09T07:30:00.000Z''
       \<and> N ''startDateISO'' = Some ''2025-03-09'' \<and> N ''startTime'' = Some ''02:30''
       \<and> fromUTCTimestamp tzdbExcerpt (N ''startTimestampUTC'') (N ''timeZone'') ''dateISO'' = Some ''2025-03-09''
       \<and> fromUTCTimestamp tzdbExcerpt (N ''startTimestampUTC'') (N ''timeZone'') ''time'' = Some ''03:30'')"
proof -
  have "toUTCTimestamp tzdbExcerpt tsNow (Some ''2025-03-09'') (Some ''02:30'') (Some ''America/New_York'')
      = toISO (fst (fixOffset (objToLocalTS \<lparr> year = 2025, month = 3, day = 9, hour = 2, minute = 30, second = 0, millisecond = 0 \<rparr>) (America_New_York tsNow) America_New_York), 0)"
    using parse_mar9 New_York_excerpt valid_mar9
    by (intro toUTCTimestamp_resolved) simp_all
  then have ts: "toUTCTimestamp tzdbExcerpt tsNow (Some ''2025-03-09'') (Some ''02:30'') (Some ''America/New_York'')
      = ''2025-03-09T07:30:00.000Z''"
    using New_York_offsets [of tsNow] iso_mar9 by auto
  show ?thesis
    using project_mar9
    by (simp add: Let_def Task_update_def Task_update_changes_def Task_create_def ts)
qed

text \<open>The update made on 2025-12-01T12:00:00Z.\<close>

theorem dual_write_gap_stores_entered_time_witness:
  "Task_update tzdbExcerpt 1764590400000
       [''startTimestampUTC'' \<mapsto> [], ''startDateISO'' \<mapsto> [], ''startTime'' \<mapsto> [], ''timeZone'' \<mapsto> ''America/New_York'']
       [''startDateISO'' \<mapsto> ''2025-03-09'', ''startTime'' \<mapsto> ''02:30''] ''startTime'' = Some ''02:30''
   \<and> fromUTCTimestamp tzdbExcerpt
       (Task_update tzdbExcerpt 1764590400000
          [''startTimestampUTC'' \<mapsto> [], ''startDateISO'' \<mapsto> [], ''startTime'' \<mapsto> [], ''timeZone'' \<mapsto> ''America/New_York'']
          [''startDateISO'' \<mapsto> ''2025-03-09'', ''startTime'' \<mapsto> ''02:30''] ''startTimestampUTC'')
       (Task_update tzdbExcerpt 1764590400000
          [''startTimestampUTC'' \<mapsto> [], ''startDateISO'' \<mapsto> [], ''startTime'' \<mapsto> [], ''timeZone'' \<mapsto> ''America/New_York'']
          [''startDateISO'' \<mapsto> ''2025-03-09'', ''startTime'' \<mapsto> ''02:30''] ''timeZone'') ''time'' = Some ''03:30''"
  using dual_write_gap_stores_entered_time [of 1764590400000] unfolding Let_def by blast

text \<open>
  Away from such inputs I1 holds for the task as stored by \<open>Task.update\<close> and for the
  task as prepared by \<open>Task.create\<close>
  \<^item> when the timestamp alone is supplied (the cached fields are then computed from
    it), and
  \<^item> when the timestamp is computed from the wall-clock fields (for an update: the
    fields after merging the changes into the current task), provided these are a valid
    wall-clock value with an hour from 00 to 23 that occurs in the zone, and the zone is
    on one of two offsets around it and at the time of the call, as for the round trip.
\<close>

lemma dual_write_projection_agrees:
  fixes db :: tzdb and timezone :: "string option" and tz :: zone
    and dateISO time :: string and obj :: dateobj and a b tsNow :: int
  defines "I1 \<equiv> \<lambda>task. truthy (task ''startTimestampUTC'') \<longrightarrow>
      fromUTCTimestamp db (task ''startTimestampUTC'') (task ''timeZone'') ''dateISO'' = task ''startDateISO''
      \<and> fromUTCTimestamp db (task ''startTimestampUTC'') (task ''timeZone'') ''time'' = task ''startTime''"
    and "exact \<equiv> db timezone = Some tz
      \<and> parseFromTokens (dateISO @ '' '' @ time) = Some obj
      \<and> \<not> hasInvalidGregorianData obj \<and> \<not> hasInvalidTimeData obj \<and> hour obj \<noteq> 24
      \<and> (\<forall>t. \<bar>t - objToLocalTS obj\<bar> \<le> msPerDay \<longrightarrow> tz t = a \<or> tz t = b)
      \<and> \<bar>a\<bar> \<le> 1440 \<and> \<bar>b\<bar> \<le> 1440
      \<and> (tz tsNow = a \<or> tz tsNow = b)
      \<and> (tz (objToLocalTS obj - a * 60 * 1000) = a \<or> tz (objToLocalTS obj - b * 60 * 1000) = b)"
  shows "(validatedChanges ''startDateISO'' = None \<and> validatedChanges ''startTime'' = None
            \<and> validatedChanges ''timeZone'' = None \<and> truthy (validatedChanges ''startTimestampUTC'')
          \<longrightarrow> I1 (Task_update db tsNow currentTask validatedChanges))
       \<and> ((validatedChanges ''startDateISO'' \<noteq> None \<or> validatedChanges ''startTime'' \<noteq> None
              \<or> validatedChanges ''timeZone'' \<noteq> None)
            \<and> nullish (validatedChanges ''startDateISO'') (currentTask ''startDateISO'') = Some dateISO
            \<and> nullish (validatedChanges ''startTime'') (currentTask ''startTime'') = Some time
            \<and> nullish (validatedChanges ''timeZone'') (currentTask ''timeZone'') = timezone
            \<and> exact
          \<longrightarrow> I1 (Task_update db tsNow currentTask validatedChanges))
       \<and> (truthy (validatedTask ''startTimestampUTC'') \<and> \<not> truthy (validatedTask ''startDateISO'')
          \<longrightarrow> I1 (Task_create db tsNow validatedTask))
       \<and> (validatedTask ''startDateISO'' = Some dateISO \<and> validatedTask ''startTime'' = Some time
            \<and> validatedTask ''timeZone'' = timezone \<and> \<not> truthy (validatedTask ''startTimestampUTC'')
            \<and> exact
          \<longrightarrow> I1 (Task_create db tsNow validatedTask))"
proof (intro conjI impI)
  define X where "X = toUTCTimestamp db tsNow (Some dateISO) (Some time) timezone"
  have rt: "fromUTCTimestamp db (Some X) timezone = [''dateISO'' \<mapsto> dateISO, ''time'' \<mapsto> time]"
    and ne: "dateISO \<noteq> []" "time \<noteq> []" if exact
  proof -
    from that have z: "db timezone = Some tz"
      and p: "parseFromTokens (dateISO @ '' '' @ time) = Some obj"
      and g: "\<not> hasInvalidGregorianData obj" and tv: "\<not> hasInvalidTimeData obj"
      and h24: "hour obj \<noteq> 24"
      and near: "\<forall>t. \<bar>t - objToLocalTS obj\<bar> \<le> msPerDay \<longrightarrow> tz t = a \<or> tz t = b"
      and ab: "\<bar>a\<bar> \<le> 1440" "\<bar>b\<bar> \<le> 1440"
      and now: "tz tsNow = a \<or> tz tsNow = b"
      and ex: "tz (objToLocalTS obj - a * 60 * 1000) = a \<or> tz (objToLocalTS obj - b * 60 * 1000) = b"
      unfolding exact_def by blast+
    show "fromUTCTimestamp db (Some X) timezone = [''dateISO'' \<mapsto> dateISO, ''time'' \<mapsto> time]"
      unfolding X_def using z p g tv h24 near ab now ex by (rule roundtrip_exact)
    note f = parseFromTokens_format [OF p]
    show "dateISO \<noteq> []" "time \<noteq> []"
      using f(1,2) by auto
  qed
  {
    assume a: "validatedChanges ''startDateISO'' = None \<and> validatedChanges ''startTime'' = None
            \<and> validatedChanges ''timeZone'' = None \<and> truthy (validatedChanges ''startTimestampUTC'')"
    then have nn: "validatedChanges ''startDateISO'' = None" "validatedChanges ''startTime'' = None"
        "validatedChanges ''timeZone'' = None" and tr: "truthy (validatedChanges ''startTimestampUTC'')"
      by simp_all
    obtain u v where r: "fromUTCTimestamp db (validatedChanges ''startTimestampUTC'') (currentTask ''timeZone'') ''dateISO'' = Some u"
        "fromUTCTimestamp db (validatedChanges ''startTimestampUTC'') (currentTask ''timeZone'') ''time'' = Some v"
      by (rule fromUTCTimestamp_keys)
    have M: "Task_update db tsNow currentTask validatedChanges
        = currentTask ++ validatedChanges(''startDateISO'' \<mapsto> u, ''startTime'' \<mapsto> v)"
      unfolding Task_update_def Task_update_changes_stamp [OF nn tr] r ..
    have fl: "(currentTask ++ validatedChanges(''startDateISO'' \<mapsto> u, ''startTime'' \<mapsto> v)) ''startTimestampUTC''
          = validatedChanges ''startTimestampUTC''"
        "(currentTask ++ validatedChanges(''startDateISO'' \<mapsto> u, ''startTime'' \<mapsto> v)) ''timeZone''
          = currentTask ''timeZone''"
        "(currentTask ++ validatedChanges(''startDateISO'' \<mapsto> u, ''startTime'' \<mapsto> v)) ''startDateISO'' = Some u"
        "(currentTask ++ validatedChanges(''startDateISO'' \<mapsto> u, ''startTime'' \<mapsto> v)) ''startTime'' = Some v"
      using nn tr by (auto simp add: map_add_def truthy_def split: option.splits)
    show "I1 (Task_update db tsNow currentTask validatedChanges)"
      unfolding I1_def M fl by (simp add: r)
  }
  {
    assume a: "(validatedChanges ''startDateISO'' \<noteq> None \<or> validatedChanges ''startTime'' \<noteq> None
              \<or> validatedChanges ''timeZone'' \<noteq> None)
            \<and> nullish (validatedChanges ''startDateISO'') (currentTask ''startDateISO'') = Some dateISO
            \<and> nullish (validatedChanges ''startTime'') (currentTask ''startTime'') = Some time
            \<and> nullish (validatedChanges ''timeZone'') (currentTask ''timeZone'') = timezone
            \<and> exact"
    then have ed: "validatedChanges ''startDateISO'' \<noteq> None \<or> validatedChanges ''startTime'' \<noteq> None
              \<or> validatedChanges ''timeZone'' \<noteq> None"
      and m: "nullish (validatedChanges ''startDateISO'') (currentTask ''startDateISO'') = Some dateISO"
        "nullish (validatedChanges ''startTime'') (currentTask ''startTime'') = Some time"
        "nullish (validatedChanges ''timeZone'') (currentTask ''timeZone'') = timezone"
      and e: exact
      by simp_all
    have ch: "Task_update_changes db tsNow currentTask validatedChanges
        = validatedChanges(''startTimestampUTC'' \<mapsto> X)"
      unfolding Task_update_changes_edit [OF ed] m X_def using ne [OF e] by simp
    show "I1 (Task_update db tsNow currentTask validatedChanges)"
      unfolding I1_def Task_update_def ch
      by (simp add: map_add_nullish m rt [OF e])
  }
  {
    assume a: "truthy (validatedTask ''startTimestampUTC'') \<and> \<not> truthy (validatedTask ''startDateISO'')"
    obtain u v where r: "fromUTCTimestamp db (validatedTask ''startTimestampUTC'') (validatedTask ''timeZone'') ''dateISO'' = Some u"
        "fromUTCTimestamp db (validatedTask ''startTimestampUTC'') (validatedTask ''timeZone'') ''time'' = Some v"
      by (rule fromUTCTimestamp_keys)
    from a have "Task_create db tsNow validatedTask
        = validatedTask(''startDateISO'' \<mapsto> u, ''startTime'' \<mapsto> v)"
      by (simp add: Task_create_def Let_def r)
    then show "I1 (Task_create db tsNow validatedTask)"
      unfolding I1_def by (simp add: r)
  }
  {
    assume a: "validatedTask ''startDateISO'' = Some dateISO \<and> validatedTask ''startTime'' = Some time
            \<and> validatedTask ''timeZone'' = timezone \<and> \<not> truthy (validatedTask ''startTimestampUTC'')
            \<and> exact"
    then have e: exact
      by simp
    from a have "Task_create db tsNow validatedTask = validatedTask(''startTimestampUTC'' \<mapsto> X)"
      using ne [OF e] by (simp add: Task_create_def Let_def X_def)
    then show "I1 (Task_create db tsNow validatedTask)"
      unfolding I1_def using a by (simp add: rt [OF e])
  }
qed

text \<open>
  An update that sets 14:30 on 2025-10-03 on a New York task, made on
  2025-12-01T12:00:00Z: the stored task has a timestamp, and its projection is the
  stored date and time.
\<close>

lemma dual_write_projection_agrees_oct3:
  "(let M = Task_update tzdbExcerpt 1764590400000
              [''startTimestampUTC'' \<mapsto> [], ''startDateISO'' \<mapsto> [], ''startTime'' \<mapsto> [],
               ''timeZone'' \<mapsto> ''America/New_York'']
              [''startDateISO'' \<mapsto> ''2025-10-03'', ''startTime'' \<mapsto> ''14:30'']
    in truthy (M ''startTimestampUTC'')
       \<and> fromUTCTimestamp tzdbExcerpt (M ''startTimestampUTC'') (M ''timeZone'') ''dateISO'' = M ''startDateISO''
       \<and> fromUTCTimestamp tzdbExcerpt (M ''startTimestampUTC'') (M ''timeZone'') ''time'' = M ''startTime'')"
proof -
  let ?cur = "[''startTimestampUTC'' \<mapsto> [], ''startDateISO'' \<mapsto> [], ''startTime'' \<mapsto> [],
               ''timeZone'' \<mapsto> ''America/New_York'']"
  let ?chg = "[''startDateISO'' \<mapsto> ''2025-10-03'', ''startTime'' \<mapsto> ''14:30'']"
  let ?obj = "\<lparr> year = 2025, month = 10, day = 3, hour = 14, minute = 30, second = 0, millisecond = 0 \<rparr>"
  have h: "hour ?obj \<noteq> 24"
    by simp
  have ab: "\<bar>- 240 :: int\<bar> \<le> 1440" "\<bar>- 300 :: int\<bar> \<le> 1440"
    by simp_all
  have oc: "America_New_York (objToLocalTS ?obj - (- 240) * 60 * 1000) = - 240
     \<or> America_New_York (objToLocalTS ?obj - (- 300) * 60 * 1000) = - 300"
    using occurs_oct3 by (rule disjI1)
  have e: "(?chg ''startDateISO'' \<noteq> None \<or> ?chg ''startTime'' \<noteq> None \<or> ?chg ''timeZone'' \<noteq> None)
      \<and> nullish (?chg ''startDateISO'') (?cur ''startDateISO'') = Some ''2025-10-03''
      \<and> nullish (?chg ''startTime'') (?cur ''startTime'') = Some ''14:30''
      \<and> nullish (?chg ''timeZone'') (?cur ''timeZone'') = Some ''America/New_York''"
    by simp
  have x: "tzdbExcerpt (Some ''America/New_York'') = Some America_New_York
      \<and> parseFromTokens (''2025-10-03'' @ '' '' @ ''14:30'') = Some ?obj
      \<and> \<not> hasInvalidGregorianData ?obj \<and> \<not> hasInvalidTimeData ?obj \<and> hour ?obj \<noteq> 24
      \<and> (\<forall>t. \<bar>t - objToLocalTS ?obj\<bar> \<le> msPerDay \<longrightarrow> America_New_York t = - 240 \<or> America_New_York t = - 300)
      \<and> \<bar>- 240 :: int\<bar> \<le> 1440 \<and> \<bar>- 300 :: int\<bar> \<le> 1440
      \<and> (America_New_York 1764590400000 = - 240 \<or> America_New_York 1764590400000 = - 300)
      \<and> (America_New_York (objToLocalTS ?obj - (- 240) * 60 * 1000) = - 240
          \<or> America_New_York (objToLocalTS ?obj - (- 300) * 60 * 1000) = - 300)"
    using New_York_excerpt parse_oct3 valid_oct3 h New_York_near ab New_York_offsets oc by blast
  have tr: "truthy (Task_update tzdbExcerpt 1764590400000 ?cur ?chg ''startTimestampUTC'')"
    by code_simp
  note t = dual_write_projection_agrees [where db = tzdbExcerpt and timezone = "Some ''America/New_York''"
          and tz = America_New_York and a = "- 240" and b = "- 300" and obj = ?obj
          and dateISO = "''2025-10-03''" and time = "''14:30''"
          and currentTask = ?cur and validatedChanges = ?chg and tsNow = 1764590400000]
  from t e x tr show ?thesis
    unfolding Let_def by blast
qed

section \<open>Running the update again\<close>

text \<open>
  Claim C9, as the code has it. Applying the same changes a second time, at a time
  \<open>tsNow'\<close> at which the zone of the merged record has the offset it had at \<open>tsNow\<close>
  (in particular at the same time), stores the same task as the first application did.
\<close>

theorem Task_update_idempotent_same_offset:
  assumes "\<forall>tz. db (nullish (validatedChanges ''timeZone'') (currentTask ''timeZone'')) = Some tz
             \<longrightarrow> tz tsNow' = tz tsNow"
  shows "Task_update db tsNow' (Task_update db tsNow currentTask validatedChanges) validatedChanges
           = Task_update db tsNow currentTask validatedChanges"
proof -
  have "Task_update_changes db tsNow' (currentTask ++ Task_update_changes db tsNow currentTask validatedChanges) validatedChanges
      = Task_update_changes db tsNow currentTask validatedChanges"
    using assms by (intro Task_update_changes_again) blast
  then show ?thesis
    by (simp add: Task_update_def map_add_twice)
qed

text \<open>
  C9 for 01:30 on 2025-11-02 in New York, set on 2025-07-01T12:00:00Z and set again a day
  later, both during daylight time.
\<close>

theorem Task_update_idempotent_same_offset_witness:
  "Task_update tzdbExcerpt 1751457600000
     (Task_update tzdbExcerpt 1751371200000
        [''startTimestampUTC'' \<mapsto> [], ''startDateISO'' \<mapsto> ''2025-11-02'', ''startTime'' \<mapsto> [],
         ''timeZone'' \<mapsto> ''America/New_York'']
        [''startTime'' \<mapsto> ''01:30''])
     [''startTime'' \<mapsto> ''01:30'']
   = Task_update tzdbExcerpt 1751371200000
        [''startTimestampUTC'' \<mapsto> [], ''startDateISO'' \<mapsto> ''2025-11-02'', ''startTime'' \<mapsto> [],
         ''timeZone'' \<mapsto> ''America/New_York'']
        [''startTime'' \<mapsto> ''01:30'']"
proof -
  have "\<forall>tz. tzdbExcerpt (nullish ([''startTime'' \<mapsto> ''01:30''] ''timeZone'')
            ([''startTimestampUTC'' \<mapsto> [], ''startDateISO'' \<mapsto> ''2025-11-02'', ''startTime'' \<mapsto> [],
              ''timeZone'' \<mapsto> ''America/New_York''] ''timeZone'')) = Some tz
          \<longrightarrow> tz 1751457600000 = tz 1751371200000"
    by (auto simp add: New_York_excerpt America_New_York_def)
  then show ?thesis
    by (rule Task_update_idempotent_same_offset)
qed

text \<open>
  C9 as stated fails when the second run falls into the other half of the year: the
  same change, 01:30 on 2025-11-02 in New York, stores 05:30Z when applied on
  2025-07-01T12:00:00Z and replaces it by 06:30Z when applied again on
  2025-12-01T12:00:00Z.
\<close>

theorem Task_update_rerun_changes_timestamp:
  "Task_update tzdbExcerpt 1764590400000
     (Task_update tzdbExcerpt 1751371200000
        [''startTimestampUTC'' \<mapsto> [], ''startDateISO'' \<mapsto> ''2025-11-02'', ''startTime'' \<mapsto> [],
         ''timeZone'' \<mapsto> ''America/New_York'']
        [''startTime'' \<mapsto> ''01:30''])
     [''startTime'' \<mapsto> ''01:30''] ''startTimestampUTC'' = Some ''2025-11-02T06:30:00.000Z''
   \<and> Task_update tzdbExcerpt 1751371200000
        [''startTimestampUTC'' \<mapsto> [], ''startDateISO'' \<mapsto> ''2025-11-02'', ''startTime'' \<mapsto> [],
         ''timeZone'' \<mapsto> ''America/New_York'']
        [''startTime'' \<mapsto> ''01:30''] ''startTimestampUTC'' = Some ''2025-11-02T05:30:00.000Z''"
  by code_simp

end
